theory Spec2Isabelle
  imports Complex_Main "HOL-Library.AList"
begin

section \<open>Data model of the course planner (frontend/src/App.jsx)\<close>

text \<open>
  A node of a structured prerequisite tree, as \<open>evaluatePrereqTree\<close> reads it: a falsy
  node (\<open>null\<close>, \<open>undefined\<close>), or an object whose \<open>type\<close> is \<open>'COURSE'\<close> (with a
  \<open>code\<close>), \<open>'AND'\<close> or \<open>'OR'\<close> (with \<open>requirements\<close>; a missing \<open>requirements\<close> is
  read as \<open>[]\<close> by \<open>node.requirements || []\<close>, so it is the empty list here), or any other
  \<open>type\<close>.
\<close>

datatype prereq_node =
    Absent
  | COURSE string
  | AND "prereq_node list"
  | OR "prereq_node list"
  | OTHER

text \<open>
  One professor entry; the rating is the decimal value written in the catalog
  (\<open>4.3\<close> is \<open>43 / 10\<close>).
\<close>

record professor =
  prof_name :: string
  rating :: rat

text \<open>
  One value of \<open>allCourses\<close>, with the fields that the planner functions read (name,
  workload, time slots, tags and description are display data). An optional field
  (\<open>undefined\<close> when missing) is an \<open>option\<close>; \<open>prereqs_structured\<close> is \<open>Absent\<close>
  when the field is missing or falsy; \<open>required\<close> is only tested for truthiness.
\<close>

record course_info =
  prereqs :: "string list option"
  prereqs_structured :: prereq_node
  credits :: "int option"
  category :: string
  difficulty :: "int option"
  required :: bool
  professors :: "professor list option"

record semester =
  sem_id :: string
  sem_name :: string
  sem_year :: nat
  sem_term :: string

definition SEMESTERS :: "semester list" where
  "SEMESTERS =
    [\<lparr>sem_id = ''fall1'', sem_name = ''Fall Y1'', sem_year = 1, sem_term = ''Fall''\<rparr>,
     \<lparr>sem_id = ''spring1'', sem_name = ''Spr Y1'', sem_year = 1, sem_term = ''Spring''\<rparr>,
     \<lparr>sem_id = ''fall2'', sem_name = ''Fall Y2'', sem_year = 2, sem_term = ''Fall''\<rparr>,
     \<lparr>sem_id = ''spring2'', sem_name = ''Spr Y2'', sem_year = 2, sem_term = ''Spring''\<rparr>,
     \<lparr>sem_id = ''fall3'', sem_name = ''Fall Y3'', sem_year = 3, sem_term = ''Fall''\<rparr>,
     \<lparr>sem_id = ''spring3'', sem_name = ''Spr Y3'', sem_year = 3, sem_term = ''Spring''\<rparr>,
     \<lparr>sem_id = ''fall4'', sem_name = ''Fall Y4'', sem_year = 4, sem_term = ''Fall''\<rparr>,
     \<lparr>sem_id = ''spring4'', sem_name = ''Spr Y4'', sem_year = 4, sem_term = ''Spring''\<rparr>]"

text \<open>
  A JavaScript object with string keys is an association list in key order, read with
  \<open>map_of\<close>; a plan maps semester ids to arrays of course codes.
\<close>

type_synonym catalog = "(string \<times> course_info) list"
type_synonym plan = "(string \<times> string list) list"

definition EMPTY_PLAN :: plan where
  "EMPTY_PLAN =
    [(''fall1'', []), (''spring1'', []), (''fall2'', []), (''spring2'', []),
     (''fall3'', []), (''spring3'', []), (''fall4'', []), (''spring4'', [])]"

text \<open>
  The state of the \<open>App\<close> component that the planner functions close over.
\<close>

record planner =
  allCourses :: catalog
  completedCodes :: "string set"
  inProgressCodes :: "string set"
  semesterPlan :: plan
  balanced :: bool
  bestProfessors :: bool
  autoplanWarnings :: "string list"

section \<open>Requirement evaluator\<close>

text \<open>\<open>semesterPlan[id] || []\<close>\<close>

definition plan_courses :: "plan \<Rightarrow> string \<Rightarrow> string list" where
  "plan_courses p semesterId = (case map_of p semesterId of None \<Rightarrow> [] | Some cs \<Rightarrow> cs)"

text \<open>\<open>Array.prototype.findIndex\<close>: the first index whose element satisfies the test, else \<open>-1\<close>.\<close>

fun findIndex :: "('a \<Rightarrow> bool) \<Rightarrow> 'a list \<Rightarrow> int" where
  "findIndex P [] = - 1"
| "findIndex P (x # xs) =
     (if P x then 0 else (let r = findIndex P xs in if r = - 1 then - 1 else r + 1))"

definition getCoursesBeforeSemester :: "planner \<Rightarrow> string \<Rightarrow> string set" where
  "getCoursesBeforeSemester st semesterId =
     (let taken = completedCodes st \<union> inProgressCodes st;
          semIndex = findIndex (\<lambda>s. sem_id s = semesterId) SEMESTERS
      in fold (\<lambda>i taken. taken \<union> set (plan_courses (semesterPlan st) (sem_id (SEMESTERS ! i))))
           [0..<nat semIndex] taken)"

fun evaluatePrereqTree :: "prereq_node \<Rightarrow> string set \<Rightarrow> bool" where
  "evaluatePrereqTree Absent takenSet = True"
| "evaluatePrereqTree (COURSE code) takenSet = (code \<in> takenSet)"
| "evaluatePrereqTree (AND requirements) takenSet =
     list_all (\<lambda>r. evaluatePrereqTree r takenSet) requirements"
| "evaluatePrereqTree (OR requirements) takenSet =
     list_ex (\<lambda>r. evaluatePrereqTree r takenSet) requirements"
| "evaluatePrereqTree OTHER takenSet = True"

text \<open>\<open>info.prereqs || []\<close>\<close>

definition prereqs_or_empty :: "course_info \<Rightarrow> string list" where
  "prereqs_or_empty info = (case prereqs info of None \<Rightarrow> [] | Some ps \<Rightarrow> ps)"

definition prereqsMet :: "planner \<Rightarrow> string \<Rightarrow> string \<Rightarrow> bool" where
  "prereqsMet st code semesterId =
     (case map_of (allCourses st) code of
        None \<Rightarrow> True
      | Some info \<Rightarrow>
          (let taken = getCoursesBeforeSemester st semesterId
           in if prereqs_structured info \<noteq> Absent
              then evaluatePrereqTree (prereqs_structured info) taken
              else list_all (\<lambda>p. p \<in> taken) (prereqs_or_empty info)))"

section \<open>Scheduler: the local auto-planner \<open>generateLocalSchedule\<close>\<close>

definition alreadyTaken :: "planner \<Rightarrow> string set" where
  "alreadyTaken st = completedCodes st \<union> inProgressCodes st"

definition mandatory_categories :: "string list" where
  "mandatory_categories = [''cs_core'', ''math_core'', ''math_discrete'', ''stats'', ''science'']"

text \<open>
  The \<open>forEach\<close> over \<open>Object.entries(allCourses)\<close> that fills \<open>toPlace\<close> and
  \<open>addedToPlace\<close>; the pair is (\<open>toPlace\<close>, \<open>addedToPlace\<close>).
\<close>

fun collect_toPlace ::
  "string set \<Rightarrow> (string \<times> course_info) list \<Rightarrow> string list \<times> string set \<Rightarrow> string list \<times> string set"
where
  "collect_toPlace taken [] acc = acc"
| "collect_toPlace taken ((code, info) # entries) (toPlace, addedToPlace) =
     collect_toPlace taken entries
       (if code \<notin> taken \<and> code \<notin> addedToPlace
           \<and> (required info \<or> category info \<in> set mandatory_categories)
        then (toPlace @ [code], insert code addedToPlace)
        else (toPlace, addedToPlace))"

text \<open>
  The inner loop of \<open>getEarliestSemester\<close>: the first semester index whose array includes
  the prerequisite, \<open>-1\<close> when there is none.
\<close>

definition prereqSem_of :: "string list list \<Rightarrow> string \<Rightarrow> int" where
  "prereqSem_of placedBySemester prereq =
     (case find (\<lambda>i. i < length placedBySemester \<and> prereq \<in> set (placedBySemester ! i))
             [0..<length SEMESTERS] of
        None \<Rightarrow> - 1
      | Some i \<Rightarrow> int i)"

text \<open>The loop over \<open>prereqs\<close>, with \<open>minSemester\<close> as accumulator and its early \<open>return -1\<close>.\<close>

fun earliest_loop :: "string set \<Rightarrow> string list list \<Rightarrow> string list \<Rightarrow> int \<Rightarrow> int" where
  "earliest_loop taken placedBySemester [] minSemester = minSemester"
| "earliest_loop taken placedBySemester (prereq # rest) minSemester =
     (if prereq \<in> taken then earliest_loop taken placedBySemester rest minSemester
      else (let prereqSem = prereqSem_of placedBySemester prereq
            in if prereqSem = - 1 then - 1
               else earliest_loop taken placedBySemester rest (max minSemester (prereqSem + 1))))"

definition getEarliestSemester :: "planner \<Rightarrow> string \<Rightarrow> string list list \<Rightarrow> int" where
  "getEarliestSemester st code placedBySemester =
     (case map_of (allCourses st) code of
        None \<Rightarrow> 0
      | Some info \<Rightarrow>
          (let prereqs = prereqs_or_empty info
           in if length prereqs = 0 then 0
              else earliest_loop (alreadyTaken st) placedBySemester prereqs 0))"

text \<open>\<open>allCourses[c]?.credits || 3\<close> and \<open>allCourses[c]?.difficulty || 3\<close>\<close>

definition credits_or_3 :: "catalog \<Rightarrow> string \<Rightarrow> int" where
  "credits_or_3 cat c =
     (case map_of cat c of
        None \<Rightarrow> 3
      | Some info \<Rightarrow> (case credits info of None \<Rightarrow> 3 | Some n \<Rightarrow> if n = 0 then 3 else n))"

definition difficulty_or_3 :: "catalog \<Rightarrow> string \<Rightarrow> int" where
  "difficulty_or_3 cat c =
     (case map_of cat c of
        None \<Rightarrow> 3
      | Some info \<Rightarrow> (case difficulty info of None \<Rightarrow> 3 | Some n \<Rightarrow> if n = 0 then 3 else n))"

definition maxCredits :: "planner \<Rightarrow> int" where
  "maxCredits st = (if balanced st then 15 else 18)"

text \<open>
  The body of the loop over \<open>semIdx\<close>: the slot takes the course when the credit test
  passes and the balanced-mode \<open>continue\<close> is not taken.
\<close>

definition slot_admits :: "planner \<Rightarrow> string list list \<Rightarrow> string \<Rightarrow> nat \<Rightarrow> bool" where
  "slot_admits st placedBySemester code semIdx =
     (let semCredits = sum_list (map (credits_or_3 (allCourses st)) (placedBySemester ! semIdx));
          hardCount = length (filter (\<lambda>c. difficulty_or_3 (allCourses st) c \<ge> 4)
                                (placedBySemester ! semIdx))
      in semCredits + credits_or_3 (allCourses st) code \<le> maxCredits st
         \<and> \<not> (balanced st \<and> difficulty_or_3 (allCourses st) code \<ge> 4 \<and> hardCount \<ge> 2))"

text \<open>
  The loop \<open>for (semIdx = earliestSem; semIdx < SEMESTERS.length; semIdx++)\<close> up to its
  \<open>break\<close>: the first slot that takes the course.
\<close>

definition find_slot :: "planner \<Rightarrow> string list list \<Rightarrow> string \<Rightarrow> int \<Rightarrow> nat option" where
  "find_slot st placedBySemester code earliestSem =
     find (slot_admits st placedBySemester code) [nat earliestSem..<length SEMESTERS]"

record sched =
  toPlace :: "string list"
  placedBySemester :: "string list list"
  placed :: "string set"
  changed :: bool

text \<open>\<open>xs.splice(i, 1)\<close>\<close>

definition splice1 :: "nat \<Rightarrow> 'a list \<Rightarrow> 'a list" where
  "splice1 i xs = take i xs @ drop (Suc i) xs"

text \<open>
  The loop \<open>for (i = toPlace.length - 1; i >= 0; i--)\<close> of one pass; the argument
  \<open>Suc i\<close> stands for the loop at index \<open>i\<close>, and \<open>0\<close> for its end. The loop starts
  at the last index and a splice removes the element at the current index only, so
  every read \<open>toPlace[i]\<close> is inside the array.
\<close>

fun place_loop :: "planner \<Rightarrow> nat \<Rightarrow> sched \<Rightarrow> sched" where
  "place_loop st 0 s = s"
| "place_loop st (Suc i) s =
     (let code = toPlace s ! i
      in if code \<in> placed s then place_loop st i (s\<lparr>toPlace := splice1 i (toPlace s)\<rparr>)
         else (let earliestSem = getEarliestSemester st code (placedBySemester s)
               in if earliestSem = - 1 then place_loop st i s
                  else (case find_slot st (placedBySemester s) code earliestSem of
                          None \<Rightarrow> place_loop st i s
                        | Some semIdx \<Rightarrow>
                            place_loop st i
                              (s\<lparr>placedBySemester :=
                                   (placedBySemester s)
                                     [semIdx := placedBySemester s ! semIdx @ [code]],
                                 placed := insert code (placed s),
                                 toPlace := splice1 i (toPlace s),
                                 changed := True\<rparr>))))"

text \<open>
  The loop \<open>while (changed && passes < 20)\<close>; the result carries the final value of
  \<open>passes\<close>.
\<close>

function schedule_passes :: "planner \<Rightarrow> nat \<Rightarrow> sched \<Rightarrow> nat \<times> sched" where
  "schedule_passes st passes s =
     (if changed s \<and> passes < 20
      then schedule_passes st (passes + 1)
             (place_loop st (length (toPlace s)) (s\<lparr>changed := False\<rparr>))
      else (passes, s))"
  by pat_completeness auto
termination
  by (relation "measure (\<lambda>(st, passes, s). 20 - passes)") auto

declare schedule_passes.simps [simp del]

definition initial_sched :: "planner \<Rightarrow> sched" where
  "initial_sched st =
     \<lparr>toPlace = fst (collect_toPlace (alreadyTaken st) (allCourses st) ([], {})),
      placedBySemester = map (\<lambda>_. []) SEMESTERS,
      placed = alreadyTaken st,
      changed = True\<rparr>"

definition run_passes :: "planner \<Rightarrow> nat \<times> sched" where
  "run_passes st = schedule_passes st 0 (initial_sched st)"

text \<open>
  \<open>SEMESTERS.forEach((sem, idx) => { newPlan[sem.id] = placedBySemester[idx] })\<close> on the
  copy of \<open>EMPTY_PLAN\<close>.
\<close>

definition write_plan :: "string list list \<Rightarrow> plan" where
  "write_plan slots =
     fold (\<lambda>(idx, sem) newPlan. AList.update (sem_id sem) (slots ! idx) newPlan)
       (enumerate 0 SEMESTERS) EMPTY_PLAN"

definition generateLocalSchedule :: "planner \<Rightarrow> planner" where
  "generateLocalSchedule st =
     st\<lparr>semesterPlan := write_plan (placedBySemester (snd (run_passes st)))\<rparr>"

text \<open>
  \<open>generateOptimalSchedule\<close> when the backend gives no plan (the request fails, or the
  response is not a success with a plan): the warnings are cleared, then the local
  planner runs.
\<close>

definition generateOptimalSchedule_offline :: "planner \<Rightarrow> planner" where
  "generateOptimalSchedule_offline st = generateLocalSchedule (st\<lparr>autoplanWarnings := []\<rparr>)"

section \<open>Tree evaluation over an object graph\<close>

text \<open>
  In the running program a node is a reference to an object, and \<open>requirements\<close> is an
  array of references, so a malformed tree can reach itself. The heap maps a reference to
  the object it points to; a reference with no object is \<open>null\<close>/\<open>undefined\<close>.
\<close>

datatype heap_node = H_COURSE string | H_AND "nat list" | H_OR "nat list" | H_OTHER

type_synonym heap = "nat \<Rightarrow> heap_node option"

text \<open>
  What is being evaluated: one node, the rest of an \<open>every\<close> over the requirements of an
  AND node, or the rest of a \<open>some\<close> over those of an OR node.
\<close>

datatype eval_task = Node nat | Every "nat list" | SomeOf "nat list"

text \<open>
  \<open>evaluatePrereqTree\<close> on references. \<open>None\<close> is an evaluation that never returns a
  value (the recursion does not end). \<open>every\<close> stops at the first false requirement and
  \<open>some\<close> at the first true one.
\<close>

partial_function (option) evaluatePrereqTree_heap ::
  "heap \<Rightarrow> string set \<Rightarrow> eval_task \<Rightarrow> bool option"
where
  "evaluatePrereqTree_heap h takenSet task =
     (case task of
        Node a \<Rightarrow>
          (case h a of
             None \<Rightarrow> Some True
           | Some (H_COURSE code) \<Rightarrow> Some (code \<in> takenSet)
           | Some (H_AND requirements) \<Rightarrow> evaluatePrereqTree_heap h takenSet (Every requirements)
           | Some (H_OR requirements) \<Rightarrow> evaluatePrereqTree_heap h takenSet (SomeOf requirements)
           | Some H_OTHER \<Rightarrow> Some True)
      | Every [] \<Rightarrow> Some True
      | Every (r # rs) \<Rightarrow>
          Option.bind (evaluatePrereqTree_heap h takenSet (Node r))
            (\<lambda>b. if b then evaluatePrereqTree_heap h takenSet (Every rs) else Some False)
      | SomeOf [] \<Rightarrow> Some False
      | SomeOf (r # rs) \<Rightarrow>
          Option.bind (evaluatePrereqTree_heap h takenSet (Node r))
            (\<lambda>b. if b then Some True else evaluatePrereqTree_heap h takenSet (SomeOf rs)))"

text \<open>The reference \<open>a\<close> of heap \<open>h\<close> is the root of the finite tree \<open>t\<close>.\<close>

inductive represents :: "heap \<Rightarrow> nat \<Rightarrow> prereq_node \<Rightarrow> bool" for h :: heap where
  rep_Absent: "h a = None \<Longrightarrow> represents h a Absent"
| rep_COURSE: "h a = Some (H_COURSE code) \<Longrightarrow> represents h a (COURSE code)"
| rep_AND: "h a = Some (H_AND rs) \<Longrightarrow> list_all2 (represents h) rs ts \<Longrightarrow> represents h a (AND ts)"
| rep_OR: "h a = Some (H_OR rs) \<Longrightarrow> list_all2 (represents h) rs ts \<Longrightarrow> represents h a (OR ts)"
| rep_OTHER: "h a = Some H_OTHER \<Longrightarrow> represents h a OTHER"

text \<open>An AND node whose only requirement is the node itself.\<close>

definition cyclic_heap :: heap where
  "cyclic_heap = (\<lambda>a. None)(0 := Some (H_AND [0]))"

text \<open>The tree \<open>OR(AND(A, B), C)\<close> laid out on a heap, rooted at reference 0.\<close>

definition or_and_heap :: heap where
  "or_and_heap =
     (\<lambda>a. None)(0 := Some (H_OR [1, 2]), 1 := Some (H_AND [3, 4]), 2 := Some (H_COURSE ''C''),
                 3 := Some (H_COURSE ''A''), 4 := Some (H_COURSE ''B''))"

section \<open>Plan validator: \<open>generateLocalAnalysis\<close>\<close>

text \<open>
  The messages pushed to \<open>issues\<close>, \<open>positives\<close> and \<open>suggestions\<close>, each with the
  values its template string interpolates.
\<close>

datatype issue =
    TooHeavy string int
  | DifficultTogether string nat
  | MissingPrerequisites string

datatype positive =
    BalancedCredits string int
  | GreatProfessor string string rat

datatype suggestion = AddCS4604 | AddCS4804

record analysis =
  overallScore :: int
  issues :: "issue list"
  suggestions :: "suggestion list"
  positives :: "positive list"

definition getSemesterCredits :: "planner \<Rightarrow> string \<Rightarrow> int" where
  "getSemesterCredits st semesterId =
     sum_list (map (credits_or_3 (allCourses st)) (plan_courses (semesterPlan st) semesterId))"

definition allPlannedCourses :: "planner \<Rightarrow> string set" where
  "allPlannedCourses st = set (concat (map snd (semesterPlan st)))"

text \<open>
  \<open>getSemesterCredits\<close> and \<open>prereqsMet\<close> are memoised with \<open>useCallback\<close>, and their
  dependency lists (\<open>[semesterPlan]\<close>, and \<open>[getCoursesBeforeSemester, evaluatePrereqTree]\<close>
  with \<open>getCoursesBeforeSemester\<close> on \<open>[semesterPlan, completedCodes, inProgressCodes]\<close>)
  do not name \<open>allCourses\<close>. Each callback therefore reads the catalog of the render in
  which it was last created: the plan and the student's sets it reads are the current
  ones, the catalog can be an older one. \<open>generateLocalAnalysis\<close> itself is created in
  every render and reads the current \<open>allCourses\<close>. The two catalogs that the callbacks
  hold are the validator's first argument.
\<close>

record held_catalogs =
  held_by_getSemesterCredits :: catalog
  held_by_prereqsMet :: catalog

text \<open>The callbacks as a render with the state \<open>st\<close> creates them.\<close>

definition callbacks_of :: "planner \<Rightarrow> held_catalogs" where
  "callbacks_of st =
     \<lparr>held_by_getSemesterCredits = allCourses st, held_by_prereqsMet = allCourses st\<rparr>"

text \<open>What one round of \<open>SEMESTERS.forEach\<close> pushes to \<open>issues\<close>, in order.\<close>

definition semester_issues :: "held_catalogs \<Rightarrow> planner \<Rightarrow> semester \<Rightarrow> issue list" where
  "semester_issues held st sem =
     (let courses = plan_courses (semesterPlan st) (sem_id sem);
          credits = getSemesterCredits (st\<lparr>allCourses := held_by_getSemesterCredits held\<rparr>)
                      (sem_id sem);
          hardCourses = filter (\<lambda>c. difficulty_or_3 (allCourses st) c \<ge> 4) courses
      in (if credits > 18 then [TooHeavy (sem_name sem) credits] else [])
         @ (if length hardCourses \<ge> 3
            then [DifficultTogether (sem_name sem) (length hardCourses)] else [])
         @ concat (map (\<lambda>code. if \<not> prereqsMet (st\<lparr>allCourses := held_by_prereqsMet held\<rparr>)
                                       code (sem_id sem)
                                then [MissingPrerequisites code] else []) courses))"

text \<open>What one round of \<open>SEMESTERS.forEach\<close> pushes to \<open>positives\<close>.\<close>

definition semester_positives :: "held_catalogs \<Rightarrow> planner \<Rightarrow> semester \<Rightarrow> positive list" where
  "semester_positives held st sem =
     (let credits = getSemesterCredits (st\<lparr>allCourses := held_by_getSemesterCredits held\<rparr>)
                      (sem_id sem)
      in if credits \<ge> 15 \<and> credits \<le> 16 then [BalancedCredits (sem_name sem) credits] else [])"

text \<open>
  \<open>info?.professors?.sort((a, b) => b.rating - a.rating)[0]\<close>: the first professor after a
  stable sort by falling rating.
\<close>

definition bestProf :: "catalog \<Rightarrow> string \<Rightarrow> professor option" where
  "bestProf cat code =
     (case map_of cat code of
        None \<Rightarrow> None
      | Some info \<Rightarrow>
          (case professors info of
             None \<Rightarrow> None
           | Some ps \<Rightarrow> (case sort_key (\<lambda>p. - rating p) ps of [] \<Rightarrow> None | p # _ \<Rightarrow> Some p)))"

definition professor_positives :: "planner \<Rightarrow> positive list" where
  "professor_positives st =
     (if bestProfessors st
      then concat (map (\<lambda>code. case bestProf (allCourses st) code of
                                 None \<Rightarrow> []
                               | Some p \<Rightarrow> if rating p \<ge> 43 / 10
                                           then [GreatProfessor code (prof_name p) (rating p)]
                                           else [])
                       (concat (map snd (semesterPlan st))))
      else [])"

definition generateLocalAnalysis :: "held_catalogs \<Rightarrow> planner \<Rightarrow> analysis" where
  "generateLocalAnalysis held st =
     (let issues = concat (map (semester_issues held st) SEMESTERS);
          positives = concat (map (semester_positives held st) SEMESTERS) @ professor_positives st;
          suggestions =
            (if ''CS 4604'' \<notin> allPlannedCourses st \<and> ''CS 4604'' \<notin> completedCodes st
             then [AddCS4604] else [])
            @ (if ''CS 4804'' \<notin> allPlannedCourses st \<and> ''CS 4804'' \<notin> completedCodes st
               then [AddCS4804] else [])
      in \<lparr>overallScore = max 0 (min 100 (100 - int (length issues) * 12 + int (length positives) * 5)),
          issues = issues,
          suggestions = suggestions,
          positives = positives\<rparr>)"

section \<open>Degree progress: the choose-N blocks of \<open>degreeProgress\<close>\<close>

definition stats_from :: "string list" where
  "stats_from = [''STAT 3006'', ''STAT 4705'', ''STAT 4714'']"

definition capstone_from :: "string list" where
  "capstone_from = [''CS 4624'', ''CS 4644'', ''CS 4974'']"

definition systemsOptions :: "string list" where
  "systemsOptions = [''CS 4114'', ''CS 4254'', ''CS 4284'']"

text \<open>
  \<open>Math.round((a / b) * 100)\<close> for integers \<open>0 \<le> a\<close> and \<open>0 < b\<close>: the percentage rounded
  half up. The blocks below call it with \<open>b = 2\<close> and \<open>b = 3\<close> and \<open>a \<le> b\<close>, where the
  double-precision result is this integer.
\<close>

definition round_percent :: "int \<Rightarrow> int \<Rightarrow> int" where
  "round_percent a b = (200 * a + b) div (2 * b)"

text \<open>
  The three running totals, and one entry of \<open>progress\<close> with its lists of completed
  and planned courses and its percentage (name, colour and the other display fields are
  left out).
\<close>

record totals =
  totalRequired :: int
  totalCompleted :: int
  totalPlanned :: int

record category_progress =
  cat_completed :: "string list"
  cat_planned :: "string list"
  cat_percent :: int

text \<open>The block \<open>// Stats\<close>: one course of \<open>DEGREE_REQUIREMENTS.stats.from\<close>.\<close>

definition progress_stats :: "planner \<Rightarrow> totals \<Rightarrow> category_progress \<times> totals" where
  "progress_stats st tot =
     (let completed = completedCodes st;
          planned = allPlannedCourses st;
          statsCompleted = filter (\<lambda>c. c \<in> completed) stats_from;
          statsPlanned = filter (\<lambda>c. c \<in> planned \<and> c \<notin> completed) stats_from
      in (\<lparr>cat_completed = statsCompleted,
           cat_planned = statsPlanned,
           cat_percent = (if length statsCompleted > 0 then 100 else 0)\<rparr>,
          tot\<lparr>totalRequired := totalRequired tot + 1,
              totalCompleted := totalCompleted tot + min 1 (int (length statsCompleted)),
              totalPlanned := totalPlanned tot
                + (if length statsCompleted = 0 then min 1 (int (length statsPlanned)) else 0)\<rparr>))"

text \<open>The block \<open>// Capstone\<close>: one course of \<open>DEGREE_REQUIREMENTS.capstone.from\<close>.\<close>

definition progress_capstone :: "planner \<Rightarrow> totals \<Rightarrow> category_progress \<times> totals" where
  "progress_capstone st tot =
     (let completed = completedCodes st;
          planned = allPlannedCourses st;
          capstoneCompleted = filter (\<lambda>c. c \<in> completed) capstone_from;
          capstonePlanned = filter (\<lambda>c. c \<in> planned \<and> c \<notin> completed) capstone_from
      in (\<lparr>cat_completed = capstoneCompleted,
           cat_planned = capstonePlanned,
           cat_percent = (if length capstoneCompleted > 0 then 100 else 0)\<rparr>,
          tot\<lparr>totalRequired := totalRequired tot + 1,
              totalCompleted := totalCompleted tot + min 1 (int (length capstoneCompleted)),
              totalPlanned := totalPlanned tot
                + (if length capstoneCompleted = 0 then min 1 (int (length capstonePlanned)) else 0)\<rparr>))"

text \<open>
  The pool of the block \<open>// CS Electives (need 3)\<close>. The parameter \<open>level3000\<close> stands
  for the string test \<open>code.startsWith('CS') && parseInt(code.split(' ')[1]) >= 3000\<close>.
\<close>

definition csElectives :: "(string \<Rightarrow> bool) \<Rightarrow> planner \<Rightarrow> string list" where
  "csElectives level3000 st =
     map fst (filter (\<lambda>(code, info). category info = ''cs_elective'' \<or> level3000 code)
                (allCourses st))"

definition progress_cs_electives ::
  "(string \<Rightarrow> bool) \<Rightarrow> planner \<Rightarrow> totals \<Rightarrow> category_progress \<times> totals"
where
  "progress_cs_electives level3000 st tot =
     (let completed = completedCodes st;
          planned = allPlannedCourses st;
          csElecCompleted = filter (\<lambda>c. c \<in> completed) (csElectives level3000 st);
          csElecPlanned = filter (\<lambda>c. c \<in> planned \<and> c \<notin> completed) (csElectives level3000 st)
      in (\<lparr>cat_completed = csElecCompleted,
           cat_planned = csElecPlanned,
           cat_percent = round_percent (min 3 (int (length csElecCompleted))) 3\<rparr>,
          tot\<lparr>totalRequired := totalRequired tot + 3,
              totalCompleted := totalCompleted tot + min 3 (int (length csElecCompleted)),
              totalPlanned := totalPlanned tot
                + min (3 - int (length csElecCompleted)) (int (length csElecPlanned))\<rparr>))"

text \<open>
  The block \<open>// CS 4104 + Systems elective\<close>: the required course and one course of
  \<open>systemsOptions\<close>.
\<close>

definition progress_cs_systems :: "planner \<Rightarrow> totals \<Rightarrow> category_progress \<times> totals" where
  "progress_cs_systems st tot =
     (let completed = completedCodes st;
          planned = allPlannedCourses st;
          systemsCompleted = filter (\<lambda>c. c \<in> completed) systemsOptions;
          systemsPlanned = filter (\<lambda>c. c \<in> planned \<and> c \<notin> completed) systemsOptions;
          done4104 = (if ''CS 4104'' \<in> completed then 1 else 0)
      in (\<lparr>cat_completed = (if ''CS 4104'' \<in> completed then [''CS 4104''] else []) @ systemsCompleted,
           cat_planned = (if ''CS 4104'' \<in> planned \<and> ''CS 4104'' \<notin> completed
                          then [''CS 4104''] else []) @ systemsPlanned,
           cat_percent = round_percent (done4104 + min 1 (int (length systemsCompleted))) 2\<rparr>,
          tot\<lparr>totalRequired := totalRequired tot + 2,
              totalCompleted := totalCompleted tot + (done4104 + min 1 (int (length systemsCompleted))),
              totalPlanned := totalPlanned tot
                + ((if ''CS 4104'' \<in> planned \<and> ''CS 4104'' \<notin> completed then 1 else 0)
                   + (if length systemsCompleted = 0
                      then min 1 (int (length systemsPlanned)) else 0))\<rparr>))"

section \<open>Catalog loader: \<open>loadCourses\<close>\<close>

text \<open>
  One element of \<open>data.courses\<close> as the backend sends it, with the fields that end up
  in a \<open>course_info\<close>, and the structured prerequisites, which \<open>loadCourses\<close> does not
  read.
\<close>

record api_course =
  api_code :: string
  api_prereqs :: "string list option"
  api_prereqs_structured :: prereq_node
  api_credits :: "int option"
  api_category :: "string option"
  api_difficulty :: "int option"
  api_required_for :: "string list option"
  api_professors :: "professor list option"

text \<open>
  The object literal stored under \<open>coursesObj[course.code]\<close>; it has no
  \<open>prereqs_structured\<close> field.
\<close>

definition convert_course :: "api_course \<Rightarrow> course_info" where
  "convert_course course =
     \<lparr>prereqs = Some (case api_prereqs course of None \<Rightarrow> [] | Some ps \<Rightarrow> ps),
      prereqs_structured = Absent,
      credits = Some (case api_credits course of None \<Rightarrow> 3 | Some n \<Rightarrow> if n = 0 then 3 else n),
      category = (case api_category course of None \<Rightarrow> '''' | Some c \<Rightarrow> c),
      difficulty = Some (case api_difficulty course of None \<Rightarrow> 3 | Some n \<Rightarrow> if n = 0 then 3 else n),
      required = (''cs_major'' \<in> set (case api_required_for course of None \<Rightarrow> [] | Some r \<Rightarrow> r)),
      professors = Some (case api_professors course of None \<Rightarrow> [] | Some ps \<Rightarrow> ps)\<rparr>"

text \<open>
  The success path of \<open>loadCourses\<close>: \<open>coursesObj\<close> is filled by assignment, then spread
  over the previous catalog when it is not empty.
\<close>

definition loadCourses :: "planner \<Rightarrow> api_course list \<Rightarrow> planner" where
  "loadCourses st courses =
     (let coursesObj = fold (\<lambda>course obj. AList.update (api_code course) (convert_course course) obj)
                         courses []
      in if length coursesObj > 0
         then st\<lparr>allCourses := fold (\<lambda>(code, info) obj. AList.update code info obj)
                                  coursesObj (allCourses st)\<rparr>
         else st)"

section \<open>The specification's requirement tree\<close>

text \<open>
  The specification's tagged union \<open>COURSE(code)\<close>, \<open>AND(children)\<close>, \<open>OR(children)\<close> and its
  satisfaction, written from the specification's words, to compare with
  \<open>evaluatePrereqTree\<close>.
\<close>

datatype req_tree = Leaf string | All_of "req_tree list" | Any_of "req_tree list"

fun spec_satisfied :: "req_tree \<Rightarrow> string set \<Rightarrow> bool" where
  "spec_satisfied (Leaf code) taken = (code \<in> taken)"
| "spec_satisfied (All_of children) taken = (\<forall>t \<in> set children. spec_satisfied t taken)"
| "spec_satisfied (Any_of children) taken = (\<exists>t \<in> set children. spec_satisfied t taken)"

text \<open>The object the catalog holds for a specification tree.\<close>

fun node_of :: "req_tree \<Rightarrow> prereq_node" where
  "node_of (Leaf code) = COURSE code"
| "node_of (All_of children) = AND (map node_of children)"
| "node_of (Any_of children) = OR (map node_of children)"

text \<open>
  The specification's taken-set of the slot with index \<open>k\<close>: completed, in progress, and
  every course placed in a slot strictly before \<open>k\<close>.
\<close>

definition spec_taken :: "planner \<Rightarrow> nat \<Rightarrow> string set" where
  "spec_taken st k =
     completedCodes st \<union> inProgressCodes st
     \<union> (\<Union>i \<in> {i. i < k}. set (plan_courses (semesterPlan st) (sem_id (SEMESTERS ! i))))"

text \<open>The specification's \<open>clamp(lo, hi, x)\<close>.\<close>

definition clamp :: "int \<Rightarrow> int \<Rightarrow> int \<Rightarrow> int" where
  "clamp lo hi x = (if x < lo then lo else if x > hi then hi else x)"

text \<open>The courses that the generated plan holds in the slot with index \<open>k\<close>.\<close>

definition scheduled_slot :: "planner \<Rightarrow> nat \<Rightarrow> string list" where
  "scheduled_slot st k =
     plan_courses (semesterPlan (generateLocalSchedule st)) (sem_id (SEMESTERS ! k))"

section \<open>Example states\<close>

definition plain_course :: course_info where
  "plain_course =
     \<lparr>prereqs = Some [], prereqs_structured = Absent, credits = Some 3, category = '''',
      difficulty = Some 3, required = True, professors = None\<rparr>"

definition empty_planner :: planner where
  "empty_planner =
     \<lparr>allCourses = [], completedCodes = {}, inProgressCodes = {}, semesterPlan = EMPTY_PLAN,
      balanced = True, bestProfessors = True, autoplanWarnings = []\<rparr>"

text \<open>A catalog whose course X requires \<open>OR(AND(A, B), C)\<close>, with a given completed set.\<close>

definition or_and_planner :: "string set \<Rightarrow> planner" where
  "or_and_planner completed =
     empty_planner
       \<lparr>allCourses :=
          [(''X'', plain_course
                    \<lparr>prereqs_structured := OR [AND [COURSE ''A'', COURSE ''B''], COURSE ''C'']\<rparr>)],
        completedCodes := completed\<rparr>"

text \<open>Two required courses that require each other.\<close>

definition two_cycle_planner :: planner where
  "two_cycle_planner =
     empty_planner
       \<lparr>allCourses := [(''A'', plain_course\<lparr>prereqs := Some [''B'']\<rparr>),
                       (''B'', plain_course\<lparr>prereqs := Some [''A'']\<rparr>)]\<rparr>"

text \<open>
  Seven required courses: a chain A, B, C of difficulty 4, two more courses of
  difficulty 4, a 9-credit course, and a course whose prerequisite Z is completed.
\<close>

definition chain_planner :: planner where
  "chain_planner =
     empty_planner
       \<lparr>allCourses :=
          [(''A'', plain_course\<lparr>difficulty := Some 4\<rparr>),
           (''B'', plain_course\<lparr>prereqs := Some [''A''], difficulty := Some 4\<rparr>),
           (''C'', plain_course\<lparr>prereqs := Some [''B'', ''A''], credits := Some 4,
                                 difficulty := Some 4\<rparr>),
           (''D'', plain_course\<lparr>difficulty := Some 4\<rparr>),
           (''E'', plain_course\<lparr>difficulty := Some 4\<rparr>),
           (''F'', plain_course\<lparr>credits := Some 9, difficulty := Some 1\<rparr>),
           (''G'', plain_course\<lparr>prereqs := Some [''Z''], difficulty := Some 1\<rparr>)],
        completedCodes := {''Z''}\<rparr>"

text \<open>
  A plan whose first slot holds five 3-credit courses and one 4-credit course; three
  of them have difficulty 4, and M5 requires a course Q that is not taken.
\<close>

definition overload_planner :: planner where
  "overload_planner =
     empty_planner
       \<lparr>allCourses :=
          [(''M1'', plain_course\<lparr>difficulty := Some 4\<rparr>),
           (''M2'', plain_course\<lparr>difficulty := Some 4\<rparr>),
           (''M3'', plain_course\<lparr>difficulty := Some 4\<rparr>),
           (''M4'', plain_course),
           (''M5'', plain_course\<lparr>prereqs := Some [''Q'']\<rparr>),
           (''M6'', plain_course\<lparr>credits := Some 4\<rparr>)],
        semesterPlan :=
          AList.update ''fall1'' [''M1'', ''M2'', ''M3'', ''M4'', ''M5'', ''M6''] EMPTY_PLAN\<rparr>"

text \<open>
  The same six courses in the first slot, planned while each is a 3-credit course of
  the catalog, before the backend's catalog arrives.
\<close>

definition before_load_planner :: planner where
  "before_load_planner =
     empty_planner
       \<lparr>allCourses :=
          [(''M1'', plain_course), (''M2'', plain_course), (''M3'', plain_course),
           (''M4'', plain_course), (''M5'', plain_course), (''M6'', plain_course)],
        semesterPlan :=
          AList.update ''fall1'' [''M1'', ''M2'', ''M3'', ''M4'', ''M5'', ''M6''] EMPTY_PLAN\<rparr>"

text \<open>What the backend sends for M6: a course of 4 credits.\<close>

definition api_M6 :: api_course where
  "api_M6 =
     \<lparr>api_code = ''M6'', api_prereqs = None, api_prereqs_structured = Absent,
      api_credits = Some 4, api_category = None, api_difficulty = None,
      api_required_for = None, api_professors = None\<rparr>"

text \<open>A student who has completed two statistics courses and five CS electives.\<close>

definition electives_planner :: planner where
  "electives_planner =
     empty_planner
       \<lparr>allCourses :=
          [(''CS 4604'', plain_course\<lparr>category := ''cs_elective''\<rparr>),
           (''CS 4804'', plain_course\<lparr>category := ''cs_elective''\<rparr>),
           (''CS 3704'', plain_course\<lparr>category := ''cs_elective''\<rparr>),
           (''CS 3724'', plain_course\<lparr>category := ''cs_elective''\<rparr>),
           (''CS 3744'', plain_course\<lparr>category := ''cs_elective''\<rparr>)],
        completedCodes :=
          {''STAT 3006'', ''STAT 4705'', ''CS 4604'', ''CS 4804'', ''CS 3704'', ''CS 3724'',
           ''CS 3744''}\<rparr>"

text \<open>
  A student who has completed two capstone courses, CS 4104 and two of the systems
  electives.
\<close>

definition capstone_systems_planner :: planner where
  "capstone_systems_planner =
     empty_planner
       \<lparr>completedCodes := {''CS 4624'', ''CS 4644'', ''CS 4104'', ''CS 4114'', ''CS 4254''}\<rparr>"

definition zero_totals :: totals where
  "zero_totals = \<lparr>totalRequired = 0, totalCompleted = 0, totalPlanned = 0\<rparr>"

text \<open>
  A required course X whose flat list is empty and whose structured prerequisite is the
  course A, which is neither taken nor in the catalog.
\<close>

definition structured_only_planner :: planner where
  "structured_only_planner =
     empty_planner\<lparr>allCourses := [(''X'', plain_course\<lparr>prereqs_structured := COURSE ''A''\<rparr>)]\<rparr>"

text \<open>What the backend sends for a course X with a structured prerequisite.\<close>

definition api_X :: api_course where
  "api_X =
     \<lparr>api_code = ''X'', api_prereqs = None, api_prereqs_structured = COURSE ''A'',
      api_credits = Some 3, api_category = Some ''cs_core'', api_difficulty = Some 3,
      api_required_for = Some [''cs_major''], api_professors = None\<rparr>"

section \<open>Invariants of the scheduler's state\<close>

text \<open>
  Properties of \<open>placedBySemester\<close> and \<open>placed\<close> that the placement loops keep: the
  slots hold no duplicate, the slots respect the credit cap, and the flat prerequisites
  of a placed course are taken or in an earlier slot.
\<close>

definition slots_disjoint :: "string list list \<Rightarrow> string set \<Rightarrow> bool" where
  "slots_disjoint pbs pl \<longleftrightarrow>
     length pbs = length SEMESTERS
     \<and> (\<forall>i < length pbs. distinct (pbs ! i) \<and> set (pbs ! i) \<subseteq> pl)
     \<and> (\<forall>i < length pbs. \<forall>j < length pbs. i \<noteq> j \<longrightarrow> set (pbs ! i) \<inter> set (pbs ! j) = {})"

definition slots_within_cap :: "planner \<Rightarrow> string list list \<Rightarrow> string set \<Rightarrow> bool" where
  "slots_within_cap st pbs pl \<longleftrightarrow>
     length pbs = length SEMESTERS
     \<and> (\<forall>i < length pbs. sum_list (map (credits_or_3 (allCourses st)) (pbs ! i)) \<le> maxCredits st)"

definition slots_ordered :: "planner \<Rightarrow> string list list \<Rightarrow> string set \<Rightarrow> bool" where
  "slots_ordered st pbs pl \<longleftrightarrow>
     length pbs = length SEMESTERS
     \<and> (\<forall>k < length pbs. \<forall>c \<in> set (pbs ! k). \<forall>info. map_of (allCourses st) c = Some info \<longrightarrow>
           (\<forall>p \<in> set (prereqs_or_empty info).
              p \<in> alreadyTaken st \<or> (\<exists>i < k. p \<in> set (pbs ! i))))"

section \<open>Requirement evaluator: correctness and monotonicity\<close>

lemma fold_union_taken:
  "fold (\<lambda>i taken. taken \<union> f i) xs T = T \<union> (\<Union>i \<in> set xs. f i)"
  by (induction xs arbitrary: T) auto

lemma length_SEMESTERS: "length SEMESTERS = 8"
  by (simp add: SEMESTERS_def)

lemma less_8_cases:
  "k < 8 \<Longrightarrow> k = 0 \<or> k = 1 \<or> k = 2 \<or> k = 3 \<or> k = 4 \<or> k = 5 \<or> k = 6 \<or> k = (7::nat)"
  by arith

lemma findIndex_SEMESTERS:
  assumes "k < length SEMESTERS"
  shows "findIndex (\<lambda>s. sem_id s = sem_id (SEMESTERS ! k)) SEMESTERS = int k"
proof -
  from assms have "k < 8" by (simp add: length_SEMESTERS)
  from less_8_cases[OF this] show ?thesis
    by (elim disjE) (simp_all add: SEMESTERS_def)
qed

lemma getCoursesBeforeSemester_slot:
  assumes "k < length SEMESTERS"
  shows "getCoursesBeforeSemester st (sem_id (SEMESTERS ! k)) = spec_taken st k"
  by (auto simp add: getCoursesBeforeSemester_def findIndex_SEMESTERS[OF assms]
      fold_union_taken spec_taken_def)

lemma evaluatePrereqTree_node_of: "evaluatePrereqTree (node_of t) T = spec_satisfied t T"
  by (induction t) (simp_all add: list_all_iff list_ex_iff)

lemma node_of_not_Absent: "node_of t \<noteq> Absent"
  by (cases t) simp_all

lemma evaluatePrereqTree_mono:
  "T \<subseteq> T' \<Longrightarrow> evaluatePrereqTree n T \<Longrightarrow> evaluatePrereqTree n T'"
  by (induction n) (auto simp add: list_all_iff list_ex_iff)

lemma getCoursesBeforeSemester_mono:
  "C1 \<subseteq> C2 \<Longrightarrow>
   getCoursesBeforeSemester (st\<lparr>completedCodes := C1\<rparr>) semesterId
     \<subseteq> getCoursesBeforeSemester (st\<lparr>completedCodes := C2\<rparr>) semesterId"
  by (auto simp add: getCoursesBeforeSemester_def fold_union_taken)

text \<open>
  C1. For every course code and the slot with index \<open>k\<close>, \<open>prereqsMet\<close> is the
  specification's satisfaction of the course's prerequisite specification by the
  taken-set (completed, in progress, and every course of a slot strictly before \<open>k\<close>):
  a tree is evaluated with COURSE as membership, AND as all children and OR as any
  child, and without a tree every code of the flat list must be in the taken-set. For
  a course that requires \<open>OR(AND(a, b), c)\<close> the result is \<open>(a and b taken) or c taken\<close>.
  A code that the catalog does not hold has no prerequisite, and \<open>prereqsMet\<close> is true.
\<close>

theorem prereqsMet_correct:
  assumes "k < length SEMESTERS"
  shows "(map_of (allCourses st) code = None \<longrightarrow> prereqsMet st code (sem_id (SEMESTERS ! k)))
       \<and> (map_of (allCourses st) code = Some info \<longrightarrow>
            (prereqs_structured info = node_of t \<longrightarrow>
               prereqsMet st code (sem_id (SEMESTERS ! k)) = spec_satisfied t (spec_taken st k))
          \<and> (prereqs_structured info = Absent \<longrightarrow>
               prereqsMet st code (sem_id (SEMESTERS ! k))
                 = (\<forall>p \<in> set (prereqs_or_empty info). p \<in> spec_taken st k))
          \<and> (prereqs_structured info = OR [AND [COURSE a, COURSE b], COURSE c] \<longrightarrow>
               prereqsMet st code (sem_id (SEMESTERS ! k))
                 = (a \<in> spec_taken st k \<and> b \<in> spec_taken st k \<or> c \<in> spec_taken st k)))"
proof -
  have taken: "getCoursesBeforeSemester st (sem_id (SEMESTERS ! k)) = spec_taken st k"
    using assms by (rule getCoursesBeforeSemester_slot)
  have none: "map_of (allCourses st) code = None \<Longrightarrow> prereqsMet st code (sem_id (SEMESTERS ! k))"
    by (simp add: prereqsMet_def)
  have tree: "map_of (allCourses st) code = Some info \<Longrightarrow> prereqs_structured info = node_of t \<Longrightarrow>
      prereqsMet st code (sem_id (SEMESTERS ! k)) = spec_satisfied t (spec_taken st k)"
    using taken by (simp add: prereqsMet_def node_of_not_Absent evaluatePrereqTree_node_of)
  have flat: "map_of (allCourses st) code = Some info \<Longrightarrow> prereqs_structured info = Absent \<Longrightarrow>
      prereqsMet st code (sem_id (SEMESTERS ! k))
        = (\<forall>p \<in> set (prereqs_or_empty info). p \<in> spec_taken st k)"
    using taken by (simp add: prereqsMet_def list_all_iff)
  have conc: "map_of (allCourses st) code = Some info \<Longrightarrow>
      prereqs_structured info = OR [AND [COURSE a, COURSE b], COURSE c] \<Longrightarrow>
      prereqsMet st code (sem_id (SEMESTERS ! k))
        = (a \<in> spec_taken st k \<and> b \<in> spec_taken st k \<or> c \<in> spec_taken st k)"
    using taken by (simp add: prereqsMet_def Let_def)
  from none tree flat conc show ?thesis by blast
qed

theorem prereqsMet_correct_witness:
  "(0::nat) < length SEMESTERS
   \<and> map_of (allCourses (or_and_planner {''C''})) ''X''
       = Some (plain_course\<lparr>prereqs_structured := OR [AND [COURSE ''A'', COURSE ''B''], COURSE ''C'']\<rparr>)
   \<and> prereqsMet (or_and_planner {''C''}) ''X'' ''fall1''
   \<and> \<not> prereqsMet (or_and_planner {''A''}) ''X'' ''fall1''
   \<and> prereqsMet (or_and_planner {''A'', ''B''}) ''X'' ''fall1''"
proof -
  let ?info = "plain_course\<lparr>prereqs_structured := OR [AND [COURSE ''A'', COURSE ''B''], COURSE ''C'']\<rparr>"
  let ?t = "Any_of [All_of [Leaf ''A'', Leaf ''B''], Leaf ''C'']"
  have m: "map_of (allCourses (or_and_planner S)) ''X'' = Some ?info" for S
    by (simp add: or_and_planner_def empty_planner_def)
  have k: "(0::nat) < length SEMESTERS" by (simp add: SEMESTERS_def)
  have n: "prereqs_structured ?info = node_of ?t" by simp
  have s0: "sem_id (SEMESTERS ! 0) = ''fall1''" by (simp add: SEMESTERS_def)
  have tk: "spec_taken (or_and_planner S) 0 = S" for S
    by (simp add: spec_taken_def or_and_planner_def empty_planner_def)
  have "prereqsMet (or_and_planner S) ''X'' ''fall1'' = spec_satisfied ?t S" for S
    using prereqsMet_correct[OF k, where st = "or_and_planner S" and code = "''X''"
        and info = ?info and t = ?t] m[of S] n s0 tk[of S]
    by simp
  then show ?thesis using m k by simp
qed

text \<open>
  C7. With the course, the slot, the plan and the in-progress set fixed, a larger
  completed set keeps \<open>prereqsMet\<close> true.
\<close>

theorem prereqsMet_mono_completed:
  assumes "C1 \<subseteq> C2" and "prereqsMet (st\<lparr>completedCodes := C1\<rparr>) code semesterId"
  shows "prereqsMet (st\<lparr>completedCodes := C2\<rparr>) code semesterId"
proof (cases "map_of (allCourses st) code")
  case None
  then show ?thesis by (simp add: prereqsMet_def)
next
  case (Some info)
  let ?T1 = "getCoursesBeforeSemester (st\<lparr>completedCodes := C1\<rparr>) semesterId"
  let ?T2 = "getCoursesBeforeSemester (st\<lparr>completedCodes := C2\<rparr>) semesterId"
  have sub: "?T1 \<subseteq> ?T2" using assms(1) by (rule getCoursesBeforeSemester_mono)
  show ?thesis
  proof (cases "prereqs_structured info = Absent")
    case True
    with Some assms(2) have "\<forall>p \<in> set (prereqs_or_empty info). p \<in> ?T1"
      by (simp add: prereqsMet_def list_all_iff)
    with sub have "\<forall>p \<in> set (prereqs_or_empty info). p \<in> ?T2" by blast
    with Some True show ?thesis by (simp add: prereqsMet_def list_all_iff)
  next
    case False
    with Some assms(2) have "evaluatePrereqTree (prereqs_structured info) ?T1"
      by (simp add: prereqsMet_def)
    with sub have "evaluatePrereqTree (prereqs_structured info) ?T2"
      by (rule evaluatePrereqTree_mono)
    with Some False show ?thesis by (simp add: prereqsMet_def)
  qed
qed

theorem prereqsMet_mono_completed_witness:
  "{''C''} \<subseteq> {''C'', ''A''}
   \<and> prereqsMet ((or_and_planner {})\<lparr>completedCodes := {''C''}\<rparr>) ''X'' ''spring1''
   \<and> prereqsMet ((or_and_planner {})\<lparr>completedCodes := {''C'', ''A''}\<rparr>) ''X'' ''spring1''"
proof -
  have sub: "{''C''} \<subseteq> {''C'', ''A''}" by simp
  have p1: "prereqsMet ((or_and_planner {})\<lparr>completedCodes := {''C''}\<rparr>) ''X'' ''spring1''"
    by (simp add: prereqsMet_def or_and_planner_def empty_planner_def plain_course_def
        getCoursesBeforeSemester_def SEMESTERS_def EMPTY_PLAN_def plan_courses_def)
  from sub p1 prereqsMet_mono_completed[OF sub p1] show ?thesis by simp
qed

section \<open>Tree evaluation on references: finite trees and a cyclic one\<close>

lemma heap_Every:
  assumes "list_all2 (\<lambda>r t. evaluatePrereqTree_heap h T (Node r) = Some (evaluatePrereqTree t T)) rs ts"
  shows "evaluatePrereqTree_heap h T (Every rs) = Some (list_all (\<lambda>t. evaluatePrereqTree t T) ts)"
  using assms
proof (induction rs ts rule: list_all2_induct)
  case Nil
  show ?case by (simp add: evaluatePrereqTree_heap.simps)
next
  case (Cons r rs t ts)
  then show ?case
    by (subst evaluatePrereqTree_heap.simps) simp
qed

lemma heap_SomeOf:
  assumes "list_all2 (\<lambda>r t. evaluatePrereqTree_heap h T (Node r) = Some (evaluatePrereqTree t T)) rs ts"
  shows "evaluatePrereqTree_heap h T (SomeOf rs) = Some (list_ex (\<lambda>t. evaluatePrereqTree t T) ts)"
  using assms
proof (induction rs ts rule: list_all2_induct)
  case Nil
  show ?case by (simp add: evaluatePrereqTree_heap.simps)
next
  case (Cons r rs t ts)
  then show ?case
    by (subst evaluatePrereqTree_heap.simps) simp
qed

text \<open>
  C2, as the code has it. On every reference that is the root of a finite tree the
  evaluation returns, with the value of \<open>evaluatePrereqTree\<close> on that tree. The code has
  no revisit guard and reports no diagnostic.
\<close>

theorem evaluatePrereqTree_heap_finite:
  assumes "represents h a t"
  shows "evaluatePrereqTree_heap h takenSet (Node a) = Some (evaluatePrereqTree t takenSet)"
  using assms
proof (induction rule: represents.induct)
  case (rep_Absent a)
  then show ?case by (simp add: evaluatePrereqTree_heap.simps)
next
  case (rep_COURSE a code)
  then show ?case by (simp add: evaluatePrereqTree_heap.simps)
next
  case (rep_AND a rs ts)
  from rep_AND(2)
  have "list_all2 (\<lambda>r t. evaluatePrereqTree_heap h takenSet (Node r)
                            = Some (evaluatePrereqTree t takenSet)) rs ts"
    by (rule list_all2_mono) simp
  then have "evaluatePrereqTree_heap h takenSet (Every rs)
               = Some (list_all (\<lambda>t. evaluatePrereqTree t takenSet) ts)"
    by (rule heap_Every)
  with rep_AND(1) show ?case
    by (subst evaluatePrereqTree_heap.simps) simp
next
  case (rep_OR a rs ts)
  from rep_OR(2)
  have "list_all2 (\<lambda>r t. evaluatePrereqTree_heap h takenSet (Node r)
                            = Some (evaluatePrereqTree t takenSet)) rs ts"
    by (rule list_all2_mono) simp
  then have "evaluatePrereqTree_heap h takenSet (SomeOf rs)
               = Some (list_ex (\<lambda>t. evaluatePrereqTree t takenSet) ts)"
    by (rule heap_SomeOf)
  with rep_OR(1) show ?case
    by (subst evaluatePrereqTree_heap.simps) simp
next
  case (rep_OTHER a)
  then show ?case by (simp add: evaluatePrereqTree_heap.simps)
qed

theorem evaluatePrereqTree_heap_finite_witness:
  "represents or_and_heap 0 (OR [AND [COURSE ''A'', COURSE ''B''], COURSE ''C''])
   \<and> evaluatePrereqTree_heap or_and_heap {''A''} (Node 0) = Some False
   \<and> evaluatePrereqTree_heap or_and_heap {''C''} (Node 0) = Some True"
proof -
  have a: "represents or_and_heap 3 (COURSE ''A'')"
    by (rule rep_COURSE) (simp add: or_and_heap_def)
  have b: "represents or_and_heap 4 (COURSE ''B'')"
    by (rule rep_COURSE) (simp add: or_and_heap_def)
  have c: "represents or_and_heap 2 (COURSE ''C'')"
    by (rule rep_COURSE) (simp add: or_and_heap_def)
  have h1: "or_and_heap 1 = Some (H_AND [3, 4])" by (simp add: or_and_heap_def)
  have h0: "or_and_heap 0 = Some (H_OR [1, 2])" by (simp add: or_and_heap_def)
  have "list_all2 (represents or_and_heap) [3, 4] [COURSE ''A'', COURSE ''B'']"
    using a b by simp
  with h1 have ab: "represents or_and_heap 1 (AND [COURSE ''A'', COURSE ''B''])"
    by (rule rep_AND)
  have "list_all2 (represents or_and_heap) [1, 2] [AND [COURSE ''A'', COURSE ''B''], COURSE ''C'']"
    using ab c by simp
  with h0 have r: "represents or_and_heap 0 (OR [AND [COURSE ''A'', COURSE ''B''], COURSE ''C''])"
    by (rule rep_OR)
  from r evaluatePrereqTree_heap_finite[OF r, of "{''A''}"]
    evaluatePrereqTree_heap_finite[OF r, of "{''C''}"]
  show ?thesis by simp
qed

text \<open>
  On the AND node whose only requirement is itself the evaluation does not return: it
  is not the value \<open>false\<close> of an unsatisfied prerequisite.
\<close>

theorem evaluatePrereqTree_heap_cyclic_counterexample:
  "evaluatePrereqTree_heap cyclic_heap {} (Node 0) = None"
proof (cases "evaluatePrereqTree_heap cyclic_heap {} (Node 0)")
  case None
  then show ?thesis .
next
  case (Some y)
  have "\<not> (cyclic_heap = cyclic_heap \<and> (Node 0 = Node 0 \<or> Node 0 = Every [0]))"
  proof (rule evaluatePrereqTree_heap.raw_induct
      [where P = "\<lambda>h T task y. \<not> (h = cyclic_heap \<and> (task = Node 0 \<or> task = Every [0]))",
        OF _ Some])
    fix self h T task y
    assume IH: "\<And>h T task y. self h T task = Some y
                  \<Longrightarrow> \<not> (h = cyclic_heap \<and> (task = Node 0 \<or> task = Every [0]))"
      and step: "(case task of
          Node a \<Rightarrow>
            (case h a of
               None \<Rightarrow> Some True
             | Some (H_COURSE code) \<Rightarrow> Some (code \<in> T)
             | Some (H_AND requirements) \<Rightarrow> self h T (Every requirements)
             | Some (H_OR requirements) \<Rightarrow> self h T (SomeOf requirements)
             | Some H_OTHER \<Rightarrow> Some True)
        | Every [] \<Rightarrow> Some True
        | Every (r # rs) \<Rightarrow>
            Option.bind (self h T (Node r))
              (\<lambda>b. if b then self h T (Every rs) else Some False)
        | SomeOf [] \<Rightarrow> Some False
        | SomeOf (r # rs) \<Rightarrow>
            Option.bind (self h T (Node r))
              (\<lambda>b. if b then Some True else self h T (SomeOf rs))) = Some y"
    show "\<not> (h = cyclic_heap \<and> (task = Node 0 \<or> task = Every [0]))"
    proof
      assume A: "h = cyclic_heap \<and> (task = Node 0 \<or> task = Every [0])"
      then consider "task = Node 0" | "task = Every [0]" by blast
      then show False
      proof cases
        case 1
        with A step have "self cyclic_heap T (Every [0]) = Some y"
          by (simp add: cyclic_heap_def)
        with IH show False by blast
      next
        case 2
        with A step obtain b where "self cyclic_heap T (Node 0) = Some b"
          by (auto simp: bind_eq_Some_conv)
        with IH show False by blast
      qed
    qed
  qed
  then show ?thesis by simp
qed

section \<open>Scheduler: invariants of the placement loops\<close>

lemma find_upt_Some:
  assumes "find P [a..<b] = Some k"
  shows "a \<le> k \<and> k < b \<and> P k"
proof -
  from assms obtain i where "i < length [a..<b]" and "P ([a..<b] ! i)" and "k = [a..<b] ! i"
    by (auto simp add: find_Some_iff)
  then show ?thesis by simp
qed

lemma find_slot_Some:
  assumes "find_slot st pbs code e = Some k"
  shows "nat e \<le> k \<and> k < length SEMESTERS \<and> slot_admits st pbs code k"
  using assms unfolding find_slot_def by (rule find_upt_Some)

text \<open>
  A property of \<open>placedBySemester\<close> and \<open>placed\<close> that every placement keeps is kept by
  the loop over \<open>toPlace\<close>, by the loop over the passes, and holds of the result when
  it holds of the empty slots.
\<close>

lemma place_loop_invariant:
  assumes step: "\<And>pbs pl code semIdx.
      I pbs pl \<Longrightarrow> code \<notin> pl \<Longrightarrow> getEarliestSemester st code pbs \<noteq> - 1 \<Longrightarrow>
      find_slot st pbs code (getEarliestSemester st code pbs) = Some semIdx \<Longrightarrow>
      I (pbs[semIdx := pbs ! semIdx @ [code]]) (insert code pl)"
    and init: "I (placedBySemester s) (placed s)"
  shows "I (placedBySemester (place_loop st n s)) (placed (place_loop st n s))"
  using init
proof (induction n arbitrary: s)
  case 0
  then show ?case by simp
next
  case (Suc n)
  let ?code = "toPlace s ! n"
  let ?e = "getEarliestSemester st ?code (placedBySemester s)"
  show ?case
  proof (cases "?code \<in> placed s")
    case True
    then show ?thesis using Suc.IH[of "s\<lparr>toPlace := splice1 n (toPlace s)\<rparr>"] Suc.prems
      by (simp add: Let_def)
  next
    case notin: False
    show ?thesis
    proof (cases "?e = - 1")
      case True
      then show ?thesis using notin Suc.IH[of s] Suc.prems by (simp add: Let_def)
    next
      case e: False
      show ?thesis
      proof (cases "find_slot st (placedBySemester s) ?code ?e")
        case None
        then show ?thesis using notin e Suc.IH[of s] Suc.prems by (simp add: Let_def)
      next
        case (Some semIdx)
        let ?s' = "s\<lparr>placedBySemester :=
                        (placedBySemester s)[semIdx := placedBySemester s ! semIdx @ [?code]],
                      placed := insert ?code (placed s),
                      toPlace := splice1 n (toPlace s),
                      changed := True\<rparr>"
        have "I (placedBySemester ?s') (placed ?s')"
          using step[OF Suc.prems notin e Some] by simp
        from Suc.IH[OF this] show ?thesis using notin e Some by (simp add: Let_def)
      qed
    qed
  qed
qed

lemma schedule_passes_invariant:
  assumes step: "\<And>pbs pl code semIdx.
      I pbs pl \<Longrightarrow> code \<notin> pl \<Longrightarrow> getEarliestSemester st code pbs \<noteq> - 1 \<Longrightarrow>
      find_slot st pbs code (getEarliestSemester st code pbs) = Some semIdx \<Longrightarrow>
      I (pbs[semIdx := pbs ! semIdx @ [code]]) (insert code pl)"
    and init: "I (placedBySemester s) (placed s)"
  shows "I (placedBySemester (snd (schedule_passes st passes s)))
           (placed (snd (schedule_passes st passes s)))"
  using init
proof (induction "20 - passes" arbitrary: passes s)
  case 0
  then show ?case by (subst (1 2) schedule_passes.simps) simp
next
  case (Suc m)
  show ?case
  proof (cases "changed s \<and> passes < 20")
    case True
    let ?s' = "place_loop st (length (toPlace s)) (s\<lparr>changed := False\<rparr>)"
    have "I (placedBySemester (s\<lparr>changed := False\<rparr>)) (placed (s\<lparr>changed := False\<rparr>))"
      using Suc.prems by simp
    then have "I (placedBySemester ?s') (placed ?s')"
      by (rule place_loop_invariant[where I = I and st = st, rotated]) (rule step)
    moreover have "m = 20 - (passes + 1)" using Suc.hyps(2) by simp
    ultimately have "I (placedBySemester (snd (schedule_passes st (passes + 1) ?s')))
                       (placed (snd (schedule_passes st (passes + 1) ?s')))"
      using Suc.hyps(1) by blast
    then show ?thesis using True by (subst (1 2) schedule_passes.simps) simp
  next
    case False
    then show ?thesis using Suc.prems by (subst (1 2) schedule_passes.simps) auto
  qed
qed

lemma run_passes_invariant:
  assumes step: "\<And>pbs pl code semIdx.
      I pbs pl \<Longrightarrow> code \<notin> pl \<Longrightarrow> getEarliestSemester st code pbs \<noteq> - 1 \<Longrightarrow>
      find_slot st pbs code (getEarliestSemester st code pbs) = Some semIdx \<Longrightarrow>
      I (pbs[semIdx := pbs ! semIdx @ [code]]) (insert code pl)"
    and init: "I (map (\<lambda>_. []) SEMESTERS) (alreadyTaken st)"
  shows "I (placedBySemester (snd (run_passes st))) (placed (snd (run_passes st)))"
  unfolding run_passes_def
proof (rule schedule_passes_invariant[where I = I and st = st, rotated])
  show "I (placedBySemester (initial_sched st)) (placed (initial_sched st))"
    using init by (simp add: initial_sched_def)
qed (rule step)

text \<open>The generated plan holds \<open>placedBySemester[k]\<close> under the id of semester \<open>k\<close>.\<close>

lemma write_plan_eq:
  "write_plan pbs =
     [(''fall1'', pbs ! 0), (''spring1'', pbs ! 1), (''fall2'', pbs ! 2), (''spring2'', pbs ! 3),
      (''fall3'', pbs ! 4), (''spring3'', pbs ! 5), (''fall4'', pbs ! 6), (''spring4'', pbs ! 7)]"
  by (simp add: write_plan_def SEMESTERS_def EMPTY_PLAN_def eval_nat_numeral)

lemma plan_courses_write_plan:
  assumes "k < length SEMESTERS"
  shows "plan_courses (write_plan pbs) (sem_id (SEMESTERS ! k)) = pbs ! k"
proof -
  from assms have "k < 8" by (simp add: length_SEMESTERS)
  from less_8_cases[OF this] show ?thesis
    by (elim disjE) (simp_all add: write_plan_eq plan_courses_def SEMESTERS_def)
qed

lemma scheduled_slot_eq:
  "k < length SEMESTERS \<Longrightarrow> scheduled_slot st k = placedBySemester (snd (run_passes st)) ! k"
  by (simp add: scheduled_slot_def generateLocalSchedule_def plan_courses_write_plan)

subsection \<open>No duplicate placement\<close>

lemma slots_disjoint_step:
  assumes "slots_disjoint pbs pl" and "code \<notin> pl" and "find_slot st pbs code e = Some semIdx"
  shows "slots_disjoint (pbs[semIdx := pbs ! semIdx @ [code]]) (insert code pl)"
proof -
  from find_slot_Some[OF assms(3)] assms(1) have k: "semIdx < length pbs"
    by (simp add: slots_disjoint_def)
  from assms(1,2) have notin: "\<forall>i < length pbs. code \<notin> set (pbs ! i)"
    by (auto simp add: slots_disjoint_def)
  show ?thesis
    unfolding slots_disjoint_def
  proof (intro conjI allI impI)
    show "length (pbs[semIdx := pbs ! semIdx @ [code]]) = length SEMESTERS"
      using assms(1) by (simp add: slots_disjoint_def)
  next
    fix i assume "i < length (pbs[semIdx := pbs ! semIdx @ [code]])"
    then show "distinct (pbs[semIdx := pbs ! semIdx @ [code]] ! i)"
      using assms(1) notin k by (auto simp add: slots_disjoint_def nth_list_update)
  next
    fix i assume "i < length (pbs[semIdx := pbs ! semIdx @ [code]])"
    then show "set (pbs[semIdx := pbs ! semIdx @ [code]] ! i) \<subseteq> insert code pl"
      using assms(1) k by (auto simp add: slots_disjoint_def nth_list_update)
  next
    fix i j
    assume "i < length (pbs[semIdx := pbs ! semIdx @ [code]])"
      and "j < length (pbs[semIdx := pbs ! semIdx @ [code]])" and "i \<noteq> j"
    then show "set (pbs[semIdx := pbs ! semIdx @ [code]] ! i)
                 \<inter> set (pbs[semIdx := pbs ! semIdx @ [code]] ! j) = {}"
      using assms(1) notin k by (auto simp add: slots_disjoint_def nth_list_update)
  qed
qed

lemma slots_disjoint_run_passes:
  "slots_disjoint (placedBySemester (snd (run_passes st))) (placed (snd (run_passes st)))"
proof (rule run_passes_invariant)
  show "slots_disjoint (map (\<lambda>_. []) SEMESTERS) (alreadyTaken st)"
    by (simp add: slots_disjoint_def)
qed (rule slots_disjoint_step)

text \<open>
  C6. In the plan that the scheduler produces, a course code that is in the slots
  with indices \<open>i\<close> and \<open>j\<close> has \<open>i = j\<close>, and it is in that slot once.
\<close>

theorem no_duplicate_placement:
  assumes "i < length SEMESTERS" and "j < length SEMESTERS"
    and "code \<in> set (scheduled_slot st i)" and "code \<in> set (scheduled_slot st j)"
  shows "i = j \<and> distinct (scheduled_slot st i)"
proof -
  let ?pbs = "placedBySemester (snd (run_passes st))"
  have inv: "slots_disjoint ?pbs (placed (snd (run_passes st)))"
    by (rule slots_disjoint_run_passes)
  from assms have mem: "code \<in> set (?pbs ! i)" "code \<in> set (?pbs ! j)"
    by (simp_all add: scheduled_slot_eq)
  have "i = j"
  proof (rule ccontr)
    assume "i \<noteq> j"
    with inv assms(1,2) have "set (?pbs ! i) \<inter> set (?pbs ! j) = {}"
      by (simp add: slots_disjoint_def)
    with mem show False by blast
  qed
  moreover from inv assms(1) have "distinct (scheduled_slot st i)"
    by (simp add: slots_disjoint_def scheduled_slot_eq)
  ultimately show ?thesis by simp
qed

theorem no_duplicate_placement_witness:
  "(1::nat) < length SEMESTERS
   \<and> ''A'' \<in> set (scheduled_slot chain_planner 1)
   \<and> scheduled_slot chain_planner 1 = [''D'', ''A'']
   \<and> distinct (scheduled_slot chain_planner 1)"
proof -
  have k: "(1::nat) < length SEMESTERS" by (simp add: SEMESTERS_def)
  have s: "scheduled_slot chain_planner 1 = [''D'', ''A'']" by code_simp
  then have m: "''A'' \<in> set (scheduled_slot chain_planner 1)" by simp
  from k m s no_duplicate_placement[OF k k m m] show ?thesis by simp
qed

subsection \<open>Credit cap\<close>

lemma slots_within_cap_step:
  assumes "slots_within_cap st pbs pl" and "find_slot st pbs code e = Some semIdx"
  shows "slots_within_cap st (pbs[semIdx := pbs ! semIdx @ [code]]) (insert code pl)"
proof -
  from find_slot_Some[OF assms(2)]
  have k: "semIdx < length SEMESTERS" and adm: "slot_admits st pbs code semIdx" by simp_all
  from adm have "sum_list (map (credits_or_3 (allCourses st)) (pbs ! semIdx))
                   + credits_or_3 (allCourses st) code \<le> maxCredits st"
    by (simp add: slot_admits_def Let_def)
  with assms(1) k show ?thesis
    by (auto simp add: slots_within_cap_def nth_list_update)
qed

lemma slots_within_cap_run_passes:
  "slots_within_cap st (placedBySemester (snd (run_passes st))) (placed (snd (run_passes st)))"
proof (rule run_passes_invariant)
  show "slots_within_cap st (map (\<lambda>_. []) SEMESTERS) (alreadyTaken st)"
    by (simp add: slots_within_cap_def maxCredits_def)
qed (rule slots_within_cap_step)

text \<open>
  C5. In the plan that the scheduler produces, the credits of every slot, summed as
  \<open>getSemesterCredits\<close> sums them, are at most 15 in balanced mode and at most 18
  otherwise.
\<close>

theorem credit_cap:
  assumes "k < length SEMESTERS"
  shows "getSemesterCredits (generateLocalSchedule st) (sem_id (SEMESTERS ! k))
           \<le> (if balanced st then 15 else 18)"
proof -
  have "slots_within_cap st (placedBySemester (snd (run_passes st)))
          (placed (snd (run_passes st)))"
    by (rule slots_within_cap_run_passes)
  with assms
  have "sum_list (map (credits_or_3 (allCourses st)) (placedBySemester (snd (run_passes st)) ! k))
          \<le> maxCredits st"
    by (simp add: slots_within_cap_def)
  then show ?thesis using assms
    by (simp add: getSemesterCredits_def generateLocalSchedule_def plan_courses_write_plan
        maxCredits_def)
qed

theorem credit_cap_witness:
  "(0::nat) < length SEMESTERS
   \<and> balanced chain_planner
   \<and> getSemesterCredits (generateLocalSchedule chain_planner) ''fall1'' = 15"
proof -
  have k: "(0::nat) < length SEMESTERS" by (simp add: SEMESTERS_def)
  have b: "balanced chain_planner" by (simp add: chain_planner_def empty_planner_def)
  have s0: "sem_id (SEMESTERS ! 0) = ''fall1''" by (simp add: SEMESTERS_def)
  have c: "getSemesterCredits (generateLocalSchedule chain_planner) ''fall1'' = 15"
    by code_simp
  from k b c credit_cap[OF k, of chain_planner] s0 show ?thesis by simp
qed

subsection \<open>Prerequisite ordering\<close>

lemma prereqSem_of_cases:
  "prereqSem_of pbs p = - 1
   \<or> (\<exists>i. prereqSem_of pbs p = int i \<and> i < length pbs \<and> p \<in> set (pbs ! i))"
proof (cases "find (\<lambda>i. i < length pbs \<and> p \<in> set (pbs ! i)) [0..<length SEMESTERS]")
  case None
  then show ?thesis by (simp add: prereqSem_of_def)
next
  case (Some i)
  from find_upt_Some[OF Some] have "i < length pbs \<and> p \<in> set (pbs ! i)" by simp
  with Some show ?thesis by (simp add: prereqSem_of_def)
qed

lemma earliest_loop_sound:
  assumes "earliest_loop taken pbs ps m \<noteq> - 1" and "0 \<le> m"
  shows "m \<le> earliest_loop taken pbs ps m
         \<and> (\<forall>p \<in> set ps. p \<in> taken
               \<or> (\<exists>i. i < length pbs \<and> p \<in> set (pbs ! i) \<and> int i < earliest_loop taken pbs ps m))"
  using assms
proof (induction ps arbitrary: m)
  case Nil
  then show ?case by simp
next
  case (Cons p ps)
  show ?case
  proof (cases "p \<in> taken")
    case True
    with Cons.prems Cons.IH[of m] show ?thesis by simp
  next
    case False
    from prereqSem_of_cases[of pbs p] Cons.prems(1) False
    obtain i where i: "prereqSem_of pbs p = int i" "i < length pbs" "p \<in> set (pbs ! i)"
      by (auto simp add: Let_def)
    let ?m' = "max m (int i + 1)"
    have eq: "earliest_loop taken pbs (p # ps) m = earliest_loop taken pbs ps ?m'"
      using False i(1) by (simp add: Let_def)
    have "earliest_loop taken pbs ps ?m' \<noteq> - 1" using Cons.prems(1) eq by simp
    moreover have "0 \<le> ?m'" using Cons.prems(2) by simp
    ultimately have IH: "?m' \<le> earliest_loop taken pbs ps ?m'
      \<and> (\<forall>q \<in> set ps. q \<in> taken
            \<or> (\<exists>j. j < length pbs \<and> q \<in> set (pbs ! j) \<and> int j < earliest_loop taken pbs ps ?m'))"
      by (rule Cons.IH)
    then have "int i < earliest_loop taken pbs ps ?m'" by simp
    with i IH show ?thesis unfolding eq by auto
  qed
qed

lemma getEarliestSemester_sound:
  assumes "map_of (allCourses st) code = Some info"
    and "getEarliestSemester st code pbs \<noteq> - 1"
    and "p \<in> set (prereqs_or_empty info)"
  shows "p \<in> alreadyTaken st
         \<or> (\<exists>i. i < length pbs \<and> p \<in> set (pbs ! i) \<and> int i < getEarliestSemester st code pbs)"
proof -
  from assms(3) have ne: "length (prereqs_or_empty info) \<noteq> 0" by auto
  with assms(1)
  have eq: "getEarliestSemester st code pbs
              = earliest_loop (alreadyTaken st) pbs (prereqs_or_empty info) 0"
    by (simp add: getEarliestSemester_def Let_def)
  with assms(2) have "earliest_loop (alreadyTaken st) pbs (prereqs_or_empty info) 0 \<noteq> - 1"
    by simp
  from earliest_loop_sound[OF this] assms(3) show ?thesis unfolding eq by simp
qed

lemma set_nth_append_update:
  "i < length pbs \<Longrightarrow> set (pbs ! i) \<subseteq> set (pbs[k := pbs ! k @ [c]] ! i)"
  by (cases "i = k") auto

lemma slots_ordered_step:
  assumes inv: "slots_ordered st pbs pl"
    and e: "getEarliestSemester st code pbs \<noteq> - 1"
    and slot: "find_slot st pbs code (getEarliestSemester st code pbs) = Some semIdx"
  shows "slots_ordered st (pbs[semIdx := pbs ! semIdx @ [code]]) (insert code pl)"
  unfolding slots_ordered_def
proof (intro conjI allI impI ballI)
  let ?pbs' = "pbs[semIdx := pbs ! semIdx @ [code]]"
  from inv have len: "length pbs = length SEMESTERS" by (simp add: slots_ordered_def)
  then show "length ?pbs' = length SEMESTERS" by simp
  from inv have ord: "\<And>k c info p. k < length pbs \<Longrightarrow> c \<in> set (pbs ! k) \<Longrightarrow>
      map_of (allCourses st) c = Some info \<Longrightarrow> p \<in> set (prereqs_or_empty info) \<Longrightarrow>
      p \<in> alreadyTaken st \<or> (\<exists>i < k. p \<in> set (pbs ! i))"
    unfolding slots_ordered_def by blast
  from find_slot_Some[OF slot] len
  have sem: "semIdx < length pbs" and ge: "nat (getEarliestSemester st code pbs) \<le> semIdx"
    by simp_all
  fix k c info p
  assume k': "k < length ?pbs'" and c: "c \<in> set (?pbs' ! k)"
    and info: "map_of (allCourses st) c = Some info" and p: "p \<in> set (prereqs_or_empty info)"
  from k' have k: "k < length pbs" by simp
  show "p \<in> alreadyTaken st \<or> (\<exists>i < k. p \<in> set (?pbs' ! i))"
  proof (cases "c \<in> set (pbs ! k)")
    case True
    from ord[OF k True info p] show ?thesis
    proof
      assume "p \<in> alreadyTaken st"
      then show ?thesis by (rule disjI1)
    next
      assume "\<exists>i < k. p \<in> set (pbs ! i)"
      then obtain i where i: "i < k" "p \<in> set (pbs ! i)" by blast
      from i(1) k have "i < length pbs" by simp
      from set_nth_append_update[OF this] i(2) have "p \<in> set (?pbs' ! i)" by blast
      with i(1) show ?thesis by blast
    qed
  next
    case False
    have keq: "k = semIdx"
    proof (rule ccontr)
      assume "k \<noteq> semIdx"
      then have "?pbs' ! k = pbs ! k" by simp
      with c False show False by simp
    qed
    with sem have "?pbs' ! k = pbs ! semIdx @ [code]" by simp
    with c False keq have ceq: "c = code" by simp
    from info ceq have info': "map_of (allCourses st) code = Some info" by simp
    from getEarliestSemester_sound[OF info' e p] show ?thesis
    proof
      assume "p \<in> alreadyTaken st"
      then show ?thesis by (rule disjI1)
    next
      assume "\<exists>i. i < length pbs \<and> p \<in> set (pbs ! i) \<and> int i < getEarliestSemester st code pbs"
      then obtain i where i: "i < length pbs" "p \<in> set (pbs ! i)"
        "int i < getEarliestSemester st code pbs" by blast
      from i(3) ge have "i < semIdx" by linarith
      moreover from set_nth_append_update[OF i(1)] i(2) have "p \<in> set (?pbs' ! i)" by blast
      ultimately show ?thesis using keq by blast
    qed
  qed
qed

lemma slots_ordered_run_passes:
  "slots_ordered st (placedBySemester (snd (run_passes st))) (placed (snd (run_passes st)))"
proof (rule run_passes_invariant)
  show "slots_ordered st (map (\<lambda>_. []) SEMESTERS) (alreadyTaken st)"
    by (simp add: slots_ordered_def)
qed (rule slots_ordered_step)

text \<open>
  C4. In the plan that the scheduler produces, every code of the flat prerequisite
  list of a course in the slot with index \<open>k\<close> is completed or in progress, or it is in
  a slot with an index below \<open>k\<close> and in no slot with another index.
\<close>

theorem prerequisites_before_course:
  assumes "k < length SEMESTERS" and "code \<in> set (scheduled_slot st k)"
    and "map_of (allCourses st) code = Some info" and "p \<in> set (prereqs_or_empty info)"
  shows "p \<in> completedCodes st \<union> inProgressCodes st
         \<or> ((\<exists>i < k. p \<in> set (scheduled_slot st i))
            \<and> (\<forall>j < length SEMESTERS. p \<in> set (scheduled_slot st j) \<longrightarrow> j < k))"
proof -
  let ?pbs = "placedBySemester (snd (run_passes st))"
  have ord: "slots_ordered st ?pbs (placed (snd (run_passes st)))"
    by (rule slots_ordered_run_passes)
  have dis: "slots_disjoint ?pbs (placed (snd (run_passes st)))"
    by (rule slots_disjoint_run_passes)
  from ord have len: "length ?pbs = length SEMESTERS" by (simp add: slots_ordered_def)
  from assms(1,2) have "code \<in> set (?pbs ! k)" by (simp add: scheduled_slot_eq)
  with ord assms(1,3,4) len
  have "p \<in> alreadyTaken st \<or> (\<exists>i < k. p \<in> set (?pbs ! i))"
    unfolding slots_ordered_def by auto
  then show ?thesis
  proof
    assume "p \<in> alreadyTaken st"
    then show ?thesis by (simp add: alreadyTaken_def)
  next
    assume "\<exists>i < k. p \<in> set (?pbs ! i)"
    then obtain i where i: "i < k" "p \<in> set (?pbs ! i)" by blast
    with assms(1) have "p \<in> set (scheduled_slot st i)" by (simp add: scheduled_slot_eq)
    with i(1) have ex: "\<exists>i < k. p \<in> set (scheduled_slot st i)" by blast
    have "j < k" if j: "j < length SEMESTERS" "p \<in> set (scheduled_slot st j)" for j
    proof (rule ccontr)
      assume "\<not> j < k"
      with i(1) have "i \<noteq> j" by simp
      moreover from i(1) assms(1) len have "i < length ?pbs" by simp
      moreover from j(1) len have "j < length ?pbs" by simp
      ultimately have "set (?pbs ! i) \<inter> set (?pbs ! j) = {}"
        using dis unfolding slots_disjoint_def by blast
      moreover from j have "p \<in> set (?pbs ! j)" by (simp add: scheduled_slot_eq)
      ultimately show False using i(2) by blast
    qed
    with ex show ?thesis by blast
  qed
qed

theorem prerequisites_before_course_witness:
  "(3::nat) < length SEMESTERS
   \<and> ''C'' \<in> set (scheduled_slot chain_planner 3)
   \<and> map_of (allCourses chain_planner) ''C''
       = Some (plain_course\<lparr>prereqs := Some [''B'', ''A''], credits := Some 4, difficulty := Some 4\<rparr>)
   \<and> ''B'' \<in> set (prereqs_or_empty
                    (plain_course\<lparr>prereqs := Some [''B'', ''A''], credits := Some 4,
                                   difficulty := Some 4\<rparr>))
   \<and> ''B'' \<notin> completedCodes chain_planner \<union> inProgressCodes chain_planner
   \<and> ''B'' \<in> set (scheduled_slot chain_planner 2)
   \<and> ''B'' \<notin> set (scheduled_slot chain_planner 3)"
proof -
  let ?info = "plain_course\<lparr>prereqs := Some [''B'', ''A''], credits := Some 4, difficulty := Some 4\<rparr>"
  have k: "(3::nat) < length SEMESTERS" by (simp add: SEMESTERS_def)
  have s3: "scheduled_slot chain_planner 3 = [''C'']" by code_simp
  have s2: "scheduled_slot chain_planner 2 = [''B'']" by code_simp
  have c: "''C'' \<in> set (scheduled_slot chain_planner 3)" using s3 by simp
  have m: "map_of (allCourses chain_planner) ''C'' = Some ?info"
    by (simp add: chain_planner_def empty_planner_def)
  have p: "''B'' \<in> set (prereqs_or_empty ?info)" by (simp add: prereqs_or_empty_def)
  have t: "''B'' \<notin> completedCodes chain_planner \<union> inProgressCodes chain_planner"
    by (simp add: chain_planner_def empty_planner_def)
  from prerequisites_before_course[OF k c m p] k c m p t s2 s3 show ?thesis by simp
qed

subsection \<open>Termination within the pass limit\<close>

lemma schedule_passes_bound:
  assumes "passes \<le> 20"
  shows "passes \<le> fst (schedule_passes st passes s)
         \<and> fst (schedule_passes st passes s) \<le> 20
         \<and> (fst (schedule_passes st passes s) < 20 \<longrightarrow> \<not> changed (snd (schedule_passes st passes s)))"
  using assms
proof (induction "20 - passes" arbitrary: passes s)
  case 0
  then have "passes = 20" by simp
  then show ?case by (subst (1 2 3 4) schedule_passes.simps) simp
next
  case (Suc m)
  show ?case
  proof (cases "changed s \<and> passes < 20")
    case True
    let ?s' = "place_loop st (length (toPlace s)) (s\<lparr>changed := False\<rparr>)"
    have "m = 20 - (passes + 1)" and "passes + 1 \<le> 20" using Suc.hyps(2) by simp_all
    from Suc.hyps(1)[OF this]
    have "passes + 1 \<le> fst (schedule_passes st (passes + 1) ?s')
          \<and> fst (schedule_passes st (passes + 1) ?s') \<le> 20
          \<and> (fst (schedule_passes st (passes + 1) ?s') < 20
               \<longrightarrow> \<not> changed (snd (schedule_passes st (passes + 1) ?s')))" .
    moreover have "schedule_passes st passes s = schedule_passes st (passes + 1) ?s'"
      using True by (subst schedule_passes.simps) simp
    ultimately show ?thesis by simp
  next
    case False
    then have "schedule_passes st passes s = (passes, s)"
      by (subst schedule_passes.simps) auto
    with False Suc.prems show ?thesis by auto
  qed
qed

lemma run_passes_at_least_one: "1 \<le> fst (run_passes st)"
proof -
  let ?s0 = "initial_sched st"
  let ?s1 = "place_loop st (length (toPlace ?s0)) (?s0\<lparr>changed := False\<rparr>)"
  have "run_passes st = schedule_passes st (0 + 1) ?s1"
    unfolding run_passes_def by (subst schedule_passes.simps) (simp add: initial_sched_def)
  moreover have "0 + 1 \<le> fst (schedule_passes st (0 + 1) ?s1)"
    using schedule_passes_bound[of "0 + 1" st ?s1] by simp
  ultimately show ?thesis by simp
qed

text \<open>
  C3, as the code has it. For every catalog the local scheduler returns after at least
  one and at most 20 passes, and before the 20th only when a pass placed no course. It
  returns the plan with the eight semester ids, each holding the courses placed in its
  slot, and it leaves \<open>autoplanWarnings\<close> as it was: after \<open>generateOptimalSchedule\<close>
  has cleared them they are empty, whatever was not placed.
\<close>

theorem schedule_terminates:
  "1 \<le> fst (run_passes st) \<and> fst (run_passes st) \<le> 20
   \<and> (fst (run_passes st) < 20 \<longrightarrow> \<not> changed (snd (run_passes st)))
   \<and> map fst (semesterPlan (generateLocalSchedule st)) = map sem_id SEMESTERS
   \<and> (\<forall>k < length SEMESTERS.
         scheduled_slot st k = placedBySemester (snd (run_passes st)) ! k)
   \<and> autoplanWarnings (generateLocalSchedule st) = autoplanWarnings st
   \<and> autoplanWarnings (generateOptimalSchedule_offline st) = []"
proof -
  have "fst (run_passes st) \<le> 20
        \<and> (fst (run_passes st) < 20 \<longrightarrow> \<not> changed (snd (run_passes st)))"
    unfolding run_passes_def using schedule_passes_bound[of 0 st "initial_sched st"] by simp
  moreover have "map fst (semesterPlan (generateLocalSchedule st)) = map sem_id SEMESTERS"
    by (simp add: generateLocalSchedule_def write_plan_eq SEMESTERS_def)
  moreover have "autoplanWarnings (generateLocalSchedule st) = autoplanWarnings st"
    by (simp add: generateLocalSchedule_def)
  moreover have "autoplanWarnings (generateOptimalSchedule_offline st) = []"
    by (simp add: generateOptimalSchedule_offline_def generateLocalSchedule_def)
  ultimately show ?thesis
    using run_passes_at_least_one[of st] scheduled_slot_eq[of _ st] by simp
qed

theorem schedule_terminates_witness:
  "fst (run_passes chain_planner) = 4
   \<and> \<not> changed (snd (run_passes chain_planner))
   \<and> (2::nat) < length SEMESTERS
   \<and> scheduled_slot chain_planner 2 = [''B'']
   \<and> placedBySemester (snd (run_passes chain_planner)) ! 2 = [''B'']
   \<and> autoplanWarnings (generateLocalSchedule chain_planner) = []"
proof -
  have p: "fst (run_passes chain_planner) = 4" by code_simp
  have k: "(2::nat) < length SEMESTERS" by (simp add: SEMESTERS_def)
  have s: "scheduled_slot chain_planner 2 = [''B'']" by code_simp
  have w: "autoplanWarnings chain_planner = []" by (simp add: chain_planner_def empty_planner_def)
  from schedule_terminates[of chain_planner] p k s w show ?thesis by simp
qed

text \<open>
  With two required courses that require each other, the loop ends after one pass
  with both courses still in \<open>toPlace\<close> and in no slot, and no warning is reported.
\<close>

theorem schedule_two_cycle_counterexample:
  "fst (run_passes two_cycle_planner) = 1
   \<and> toPlace (snd (run_passes two_cycle_planner)) = [''A'', ''B'']
   \<and> concat (map snd (semesterPlan (generateOptimalSchedule_offline two_cycle_planner))) = []
   \<and> autoplanWarnings (generateOptimalSchedule_offline two_cycle_planner) = []"
  by code_simp

section \<open>Plan validator: what is flagged, and the score\<close>

lemma semester_issues_subset:
  "sem \<in> set SEMESTERS \<Longrightarrow>
   set (semester_issues held st sem) \<subseteq> set (issues (generateLocalAnalysis held st))"
  by (auto simp add: generateLocalAnalysis_def Let_def)

lemma issues_of_some_semester:
  "i \<in> set (issues (generateLocalAnalysis held st)) \<Longrightarrow>
   \<exists>sem \<in> set SEMESTERS. i \<in> set (semester_issues held st sem)"
  by (auto simp add: generateLocalAnalysis_def Let_def)

lemma overallScore_clamp:
  "overallScore (generateLocalAnalysis held st)
     = clamp 0 100 (100 - 12 * int (length (issues (generateLocalAnalysis held st)))
                        + 5 * int (length (positives (generateLocalAnalysis held st))))"
  by (simp add: generateLocalAnalysis_def Let_def clamp_def)

text \<open>
  What the validator does flag, for every plan and whatever catalogs its callbacks hold:
  a slot is reported too heavy exactly when the credits that \<open>getSemesterCredits\<close> sums
  over the catalog it holds exceed 18; three or more courses of difficulty 4 or more
  (in the current catalog) in one slot are reported; a course of a slot is reported
  exactly when the \<open>prereqsMet\<close> callback is false for it; and the score is the clamp.
\<close>

lemma validator_flags_held_catalogs:
  assumes "sem \<in> set SEMESTERS"
  shows "(getSemesterCredits (st\<lparr>allCourses := held_by_getSemesterCredits held\<rparr>) (sem_id sem) > 18
            \<longrightarrow> TooHeavy (sem_name sem)
                  (getSemesterCredits (st\<lparr>allCourses := held_by_getSemesterCredits held\<rparr>) (sem_id sem))
                \<in> set (issues (generateLocalAnalysis held st)))
       \<and> (length (filter (\<lambda>c. difficulty_or_3 (allCourses st) c \<ge> 4)
                     (plan_courses (semesterPlan st) (sem_id sem))) \<ge> 3 \<longrightarrow>
            DifficultTogether (sem_name sem)
                (length (filter (\<lambda>c. difficulty_or_3 (allCourses st) c \<ge> 4)
                           (plan_courses (semesterPlan st) (sem_id sem))))
              \<in> set (issues (generateLocalAnalysis held st)))
       \<and> (code \<in> set (plan_courses (semesterPlan st) (sem_id sem))
            \<and> \<not> prereqsMet (st\<lparr>allCourses := held_by_prereqsMet held\<rparr>) code (sem_id sem) \<longrightarrow>
            MissingPrerequisites code \<in> set (issues (generateLocalAnalysis held st)))
       \<and> overallScore (generateLocalAnalysis held st)
           = clamp 0 100 (100 - 12 * int (length (issues (generateLocalAnalysis held st)))
                              + 5 * int (length (positives (generateLocalAnalysis held st))))"
proof (intro conjI impI)
  note sub = semester_issues_subset[OF assms, of held st]
  show "TooHeavy (sem_name sem)
          (getSemesterCredits (st\<lparr>allCourses := held_by_getSemesterCredits held\<rparr>) (sem_id sem))
          \<in> set (issues (generateLocalAnalysis held st))"
    if "getSemesterCredits (st\<lparr>allCourses := held_by_getSemesterCredits held\<rparr>) (sem_id sem) > 18"
  proof -
    from that
    have "TooHeavy (sem_name sem)
            (getSemesterCredits (st\<lparr>allCourses := held_by_getSemesterCredits held\<rparr>) (sem_id sem))
          \<in> set (semester_issues held st sem)"
      by (simp add: semester_issues_def Let_def)
    with sub show ?thesis by blast
  qed
  show "DifficultTogether (sem_name sem)
            (length (filter (\<lambda>c. difficulty_or_3 (allCourses st) c \<ge> 4)
                       (plan_courses (semesterPlan st) (sem_id sem))))
          \<in> set (issues (generateLocalAnalysis held st))"
    if "length (filter (\<lambda>c. difficulty_or_3 (allCourses st) c \<ge> 4)
                  (plan_courses (semesterPlan st) (sem_id sem))) \<ge> 3"
  proof -
    from that
    have "DifficultTogether (sem_name sem)
            (length (filter (\<lambda>c. difficulty_or_3 (allCourses st) c \<ge> 4)
                       (plan_courses (semesterPlan st) (sem_id sem))))
          \<in> set (semester_issues held st sem)"
      by (simp add: semester_issues_def Let_def)
    with sub show ?thesis by blast
  qed
  show "MissingPrerequisites code \<in> set (issues (generateLocalAnalysis held st))"
    if "code \<in> set (plan_courses (semesterPlan st) (sem_id sem))
        \<and> \<not> prereqsMet (st\<lparr>allCourses := held_by_prereqsMet held\<rparr>) code (sem_id sem)"
  proof -
    from that have "MissingPrerequisites code \<in> set (semester_issues held st sem)"
      by (auto simp add: semester_issues_def Let_def)
    with sub show ?thesis by blast
  qed
  show "overallScore (generateLocalAnalysis held st)
          = clamp 0 100 (100 - 12 * int (length (issues (generateLocalAnalysis held st)))
                             + 5 * int (length (positives (generateLocalAnalysis held st))))"
    by (rule overallScore_clamp)
qed

text \<open>
  With callbacks created over the catalog in use, the plan of \<open>overload_planner\<close> gets
  its three issues in the first slot (19 credits, three difficult courses, M5 without
  its prerequisite) and the score \<open>100 - 36 = 64\<close>.
\<close>

lemma validator_current_catalog_example:
  "getSemesterCredits overload_planner ''fall1'' = 19
   \<and> generateLocalAnalysis (callbacks_of overload_planner) overload_planner
       = \<lparr>overallScore = 64,
          issues = [TooHeavy ''Fall Y1'' 19, DifficultTogether ''Fall Y1'' 3,
                    MissingPrerequisites ''M5''],
          suggestions = [AddCS4604, AddCS4804],
          positives = []\<rparr>"
  by code_simp

text \<open>
  No overload issue is reported unless the credits that the callback sums over the
  catalog it holds exceed 18.
\<close>

lemma TooHeavy_only_by_held_catalog:
  assumes "TooHeavy nm n \<in> set (issues (generateLocalAnalysis held st))"
  shows "\<exists>sem \<in> set SEMESTERS.
           n = getSemesterCredits (st\<lparr>allCourses := held_by_getSemesterCredits held\<rparr>)
                       (sem_id sem)
           \<and> n > 18"
proof -
  from issues_of_some_semester[OF assms] obtain sem
    where sem: "sem \<in> set SEMESTERS"
      and mem: "TooHeavy nm n \<in> set (semester_issues held st sem)" by blast
  from mem
  have "n = getSemesterCredits (st\<lparr>allCourses := held_by_getSemesterCredits held\<rparr>) (sem_id sem)
        \<and> n > 18"
    by (auto simp add: semester_issues_def Let_def split: if_splits)
  with sem show ?thesis by blast
qed

text \<open>
  C8. The validator does not flag every slot whose summed credits exceed 18. The plan
  of \<open>before_load_planner\<close> holds six courses in its first slot, each of 3 credits in the
  catalog of the render that created the callbacks. \<open>loadCourses\<close> then stores 4 credits
  for M6 and leaves the plan as it is, so \<open>getSemesterCredits\<close> is not created again:
  the slot now holds five 3-credit courses and one 4-credit course, 19 credits in the
  current catalog, the callback still returns 18, and the validator reports no issue
  and the score 100. With callbacks created over the loaded catalog the same slot is
  reported with 19 credits.
\<close>

theorem validator_stale_credits:
  "plan_courses (semesterPlan (loadCourses before_load_planner [api_M6])) ''fall1''
     = [''M1'', ''M2'', ''M3'', ''M4'', ''M5'', ''M6'']
   \<and> map (credits_or_3 (allCourses (loadCourses before_load_planner [api_M6])))
        [''M1'', ''M2'', ''M3'', ''M4'', ''M5'', ''M6''] = [3, 3, 3, 3, 3, 4]
   \<and> getSemesterCredits (loadCourses before_load_planner [api_M6]) ''fall1'' = 19
   \<and> getSemesterCredits before_load_planner ''fall1'' = 18
   \<and> issues (generateLocalAnalysis (callbacks_of before_load_planner)
               (loadCourses before_load_planner [api_M6])) = []
   \<and> overallScore (generateLocalAnalysis (callbacks_of before_load_planner)
                     (loadCourses before_load_planner [api_M6])) = 100
   \<and> issues (generateLocalAnalysis (callbacks_of (loadCourses before_load_planner [api_M6]))
               (loadCourses before_load_planner [api_M6])) = [TooHeavy ''Fall Y1'' 19]"
proof -
  have a: "plan_courses (semesterPlan (loadCourses before_load_planner [api_M6])) ''fall1''
             = [''M1'', ''M2'', ''M3'', ''M4'', ''M5'', ''M6'']"
    by code_simp
  have b: "map (credits_or_3 (allCourses (loadCourses before_load_planner [api_M6])))
             [''M1'', ''M2'', ''M3'', ''M4'', ''M5'', ''M6''] = [3, 3, 3, 3, 3, 4]"
    by code_simp
  have c: "getSemesterCredits (loadCourses before_load_planner [api_M6]) ''fall1'' = 19"
    by code_simp
  have d: "getSemesterCredits before_load_planner ''fall1'' = 18"
    by code_simp
  have e: "issues (generateLocalAnalysis (callbacks_of before_load_planner)
                     (loadCourses before_load_planner [api_M6])) = []"
    by code_simp
  have f: "overallScore (generateLocalAnalysis (callbacks_of before_load_planner)
                           (loadCourses before_load_planner [api_M6])) = 100"
    by code_simp
  have g: "issues (generateLocalAnalysis (callbacks_of (loadCourses before_load_planner [api_M6]))
                     (loadCourses before_load_planner [api_M6])) = [TooHeavy ''Fall Y1'' 19]"
    by code_simp
  from a b c d e f g show ?thesis by blast
qed

section \<open>Degree progress: the cap of the choose-N categories\<close>

lemma round_percent_capped:
  assumes "0 \<le> a" and "a \<le> b" and "0 < b"
  shows "round_percent a b \<le> 100"
proof -
  have "200 * a + b \<le> 100 * (2 * b) + b" using assms by simp
  then have "(200 * a + b) div (2 * b) \<le> (100 * (2 * b) + b) div (2 * b)"
    by (rule zdiv_mono1) (use assms in simp)
  also have "(100 * (2 * b) + b) div (2 * b) = 100" using assms by simp
  finally show ?thesis by (simp add: round_percent_def)
qed

lemma round_percent_full: "0 < b \<Longrightarrow> round_percent b b = 100"
proof -
  assume b: "0 < b"
  have "(200 * b + b) div (2 * b) = (100 * (2 * b) + b) div (2 * b)" by simp
  also have "\<dots> = 100" using b by simp
  finally show ?thesis by (simp add: round_percent_def)
qed

lemma round_percent_thirds:
  "round_percent (min 3 (int n)) 3
     = (if 3 \<le> n then 100 else if n = 2 then 67 else if n = 1 then 33 else 0)"
proof -
  consider "n = 0" | "n = 1" | "n = 2" | "3 \<le> n" by linarith
  then show ?thesis
    by cases (simp_all add: round_percent_def)
qed

lemma round_percent_halves:
  "round_percent ((if d then 1 else 0) + min 1 (int m)) 2
     = (if d \<and> 1 \<le> m then 100 else if d \<or> 1 \<le> m then 50 else 0)"
proof -
  consider "m = 0" | "1 \<le> m" by linarith
  then show ?thesis
    by cases (simp_all add: round_percent_def)
qed

text \<open>
  The number of completed courses of a pool that lists no course twice is the number
  of the pool's courses in the completed set; the three fixed pools list none twice.
\<close>

lemma completed_of_pool_card:
  "distinct pool \<Longrightarrow>
   length (filter (\<lambda>c. c \<in> completedCodes st) pool) = card (set pool \<inter> completedCodes st)"
proof -
  assume d: "distinct pool"
  have "{x \<in> set pool. x \<in> completedCodes st} = set pool \<inter> completedCodes st" by blast
  with d show ?thesis by (simp add: distinct_length_filter Int_commute)
qed

lemma fixed_pools_distinct:
  "distinct stats_from \<and> distinct capstone_from \<and> distinct systemsOptions"
  by (simp add: stats_from_def capstone_from_def systemsOptions_def)

text \<open>
  C9. Each choose-N block of \<open>degreeProgress\<close> (N is 1 for statistics, capstone and the
  systems elective, 3 for the CS electives) lists as completed the courses of its pool
  that are in \<open>completedCodes\<close>, in the pool's order, and adds to \<open>totalCompleted\<close> the
  number of them capped at N. The reported percentage is never above 100, and it is
  exactly 100 once N or more courses of the pool are completed (for the systems block,
  once CS 4104 and one systems elective are). Below N it is 0 for statistics and
  capstone, 33 and 67 for one and two CS electives, and 50 for the systems block with
  one of its two parts done.
\<close>

theorem choose_n_capped:
  "cat_completed (fst (progress_stats st tot))
     = filter (\<lambda>c. c \<in> completedCodes st) stats_from
   \<and> totalCompleted (snd (progress_stats st tot))
       = totalCompleted tot
         + min 1 (int (length (filter (\<lambda>c. c \<in> completedCodes st) stats_from)))
   \<and> cat_percent (fst (progress_stats st tot)) \<le> 100
   \<and> (1 \<le> length (filter (\<lambda>c. c \<in> completedCodes st) stats_from)
        \<longrightarrow> cat_percent (fst (progress_stats st tot)) = 100)
   \<and> cat_percent (fst (progress_stats st tot))
       = (if 1 \<le> length (filter (\<lambda>c. c \<in> completedCodes st) stats_from) then 100 else 0)
   \<and> cat_completed (fst (progress_capstone st tot))
       = filter (\<lambda>c. c \<in> completedCodes st) capstone_from
   \<and> totalCompleted (snd (progress_capstone st tot))
       = totalCompleted tot
         + min 1 (int (length (filter (\<lambda>c. c \<in> completedCodes st) capstone_from)))
   \<and> cat_percent (fst (progress_capstone st tot)) \<le> 100
   \<and> (1 \<le> length (filter (\<lambda>c. c \<in> completedCodes st) capstone_from)
        \<longrightarrow> cat_percent (fst (progress_capstone st tot)) = 100)
   \<and> cat_percent (fst (progress_capstone st tot))
       = (if 1 \<le> length (filter (\<lambda>c. c \<in> completedCodes st) capstone_from) then 100 else 0)
   \<and> cat_completed (fst (progress_cs_electives level3000 st tot))
       = filter (\<lambda>c. c \<in> completedCodes st) (csElectives level3000 st)
   \<and> totalCompleted (snd (progress_cs_electives level3000 st tot))
       = totalCompleted tot
         + min 3 (int (length (filter (\<lambda>c. c \<in> completedCodes st)
                                 (csElectives level3000 st))))
   \<and> cat_percent (fst (progress_cs_electives level3000 st tot)) \<le> 100
   \<and> (3 \<le> length (filter (\<lambda>c. c \<in> completedCodes st) (csElectives level3000 st))
        \<longrightarrow> cat_percent (fst (progress_cs_electives level3000 st tot)) = 100)
   \<and> cat_percent (fst (progress_cs_electives level3000 st tot))
       = (if 3 \<le> length (filter (\<lambda>c. c \<in> completedCodes st) (csElectives level3000 st))
          then 100
          else if length (filter (\<lambda>c. c \<in> completedCodes st) (csElectives level3000 st)) = 2
          then 67
          else if length (filter (\<lambda>c. c \<in> completedCodes st) (csElectives level3000 st)) = 1
          then 33 else 0)
   \<and> cat_completed (fst (progress_cs_systems st tot))
       = (if ''CS 4104'' \<in> completedCodes st then [''CS 4104''] else [])
         @ filter (\<lambda>c. c \<in> completedCodes st) systemsOptions
   \<and> totalCompleted (snd (progress_cs_systems st tot))
       = totalCompleted tot
         + ((if ''CS 4104'' \<in> completedCodes st then 1 else 0)
            + min 1 (int (length (filter (\<lambda>c. c \<in> completedCodes st) systemsOptions))))
   \<and> cat_percent (fst (progress_cs_systems st tot)) \<le> 100
   \<and> (''CS 4104'' \<in> completedCodes st
        \<and> 1 \<le> length (filter (\<lambda>c. c \<in> completedCodes st) systemsOptions)
        \<longrightarrow> cat_percent (fst (progress_cs_systems st tot)) = 100)
   \<and> cat_percent (fst (progress_cs_systems st tot))
       = (if ''CS 4104'' \<in> completedCodes st
             \<and> 1 \<le> length (filter (\<lambda>c. c \<in> completedCodes st) systemsOptions)
          then 100
          else if ''CS 4104'' \<in> completedCodes st
                  \<or> 1 \<le> length (filter (\<lambda>c. c \<in> completedCodes st) systemsOptions)
          then 50 else 0)"
proof -
  let ?done = "\<lambda>pool. filter (\<lambda>c. c \<in> completedCodes st) pool"
  have st1: "cat_completed (fst (progress_stats st tot)) = ?done stats_from"
    by (simp add: progress_stats_def Let_def)
  have st2: "totalCompleted (snd (progress_stats st tot))
               = totalCompleted tot + min 1 (int (length (?done stats_from)))"
    by (simp add: progress_stats_def Let_def)
  have st5: "cat_percent (fst (progress_stats st tot))
               = (if 1 \<le> length (?done stats_from) then 100 else 0)"
    by (simp add: progress_stats_def Let_def Suc_le_eq)
  have st3: "cat_percent (fst (progress_stats st tot)) \<le> 100"
    unfolding st5 by simp
  have st4: "1 \<le> length (?done stats_from) \<longrightarrow> cat_percent (fst (progress_stats st tot)) = 100"
    unfolding st5 by simp
  have ca1: "cat_completed (fst (progress_capstone st tot)) = ?done capstone_from"
    by (simp add: progress_capstone_def Let_def)
  have ca2: "totalCompleted (snd (progress_capstone st tot))
               = totalCompleted tot + min 1 (int (length (?done capstone_from)))"
    by (simp add: progress_capstone_def Let_def)
  have ca5: "cat_percent (fst (progress_capstone st tot))
               = (if 1 \<le> length (?done capstone_from) then 100 else 0)"
    by (simp add: progress_capstone_def Let_def Suc_le_eq)
  have ca3: "cat_percent (fst (progress_capstone st tot)) \<le> 100"
    unfolding ca5 by simp
  have ca4: "1 \<le> length (?done capstone_from)
               \<longrightarrow> cat_percent (fst (progress_capstone st tot)) = 100"
    unfolding ca5 by simp
  let ?pool = "csElectives level3000 st"
  have el1: "cat_completed (fst (progress_cs_electives level3000 st tot)) = ?done ?pool"
    by (simp add: progress_cs_electives_def Let_def)
  have el2: "totalCompleted (snd (progress_cs_electives level3000 st tot))
               = totalCompleted tot + min 3 (int (length (?done ?pool)))"
    by (simp add: progress_cs_electives_def Let_def)
  have elp: "cat_percent (fst (progress_cs_electives level3000 st tot))
               = round_percent (min 3 (int (length (?done ?pool)))) 3"
    by (simp add: progress_cs_electives_def Let_def)
  have el5: "cat_percent (fst (progress_cs_electives level3000 st tot))
               = (if 3 \<le> length (?done ?pool) then 100
                  else if length (?done ?pool) = 2 then 67
                  else if length (?done ?pool) = 1 then 33 else 0)"
    unfolding elp by (rule round_percent_thirds)
  have el3: "cat_percent (fst (progress_cs_electives level3000 st tot)) \<le> 100"
    unfolding el5 by simp
  have el4: "3 \<le> length (?done ?pool)
               \<longrightarrow> cat_percent (fst (progress_cs_electives level3000 st tot)) = 100"
    unfolding el5 by simp
  let ?d = "''CS 4104'' \<in> completedCodes st"
  have sy1: "cat_completed (fst (progress_cs_systems st tot))
               = (if ?d then [''CS 4104''] else []) @ ?done systemsOptions"
    by (simp add: progress_cs_systems_def Let_def)
  have sy2: "totalCompleted (snd (progress_cs_systems st tot))
               = totalCompleted tot
                 + ((if ?d then 1 else 0) + min 1 (int (length (?done systemsOptions))))"
    by (simp add: progress_cs_systems_def Let_def)
  have syp: "cat_percent (fst (progress_cs_systems st tot))
               = round_percent ((if ?d then 1 else 0) + min 1 (int (length (?done systemsOptions)))) 2"
    by (simp add: progress_cs_systems_def Let_def)
  have sy5: "cat_percent (fst (progress_cs_systems st tot))
               = (if ?d \<and> 1 \<le> length (?done systemsOptions) then 100
                  else if ?d \<or> 1 \<le> length (?done systemsOptions) then 50 else 0)"
    unfolding syp by (rule round_percent_halves)
  have sy3: "cat_percent (fst (progress_cs_systems st tot)) \<le> 100"
    unfolding sy5 by simp
  have sy4: "?d \<and> 1 \<le> length (?done systemsOptions)
               \<longrightarrow> cat_percent (fst (progress_cs_systems st tot)) = 100"
    unfolding sy5 by simp
  show ?thesis
    by (intro conjI)
       (rule st1 st2 st3 st4 st5 ca1 ca2 ca3 ca4 ca5 el1 el2 el3 el4 el5 sy1 sy2 sy3 sy4 sy5)+
qed

text \<open>
  Two of the three statistics courses completed count 1 and report 100; five completed
  CS electives count 3 and report 100; two completed capstone courses count 1 and
  report 100; CS 4104 and two completed systems electives count 2 and report 100.
\<close>

theorem choose_n_capped_witness:
  "cat_completed (fst (progress_stats electives_planner zero_totals))
     = [''STAT 3006'', ''STAT 4705'']
   \<and> totalCompleted (snd (progress_stats electives_planner zero_totals)) = 1
   \<and> cat_percent (fst (progress_stats electives_planner zero_totals)) = 100
   \<and> cat_completed (fst (progress_cs_electives (\<lambda>c. False) electives_planner zero_totals))
       = [''CS 4604'', ''CS 4804'', ''CS 3704'', ''CS 3724'', ''CS 3744'']
   \<and> totalCompleted (snd (progress_cs_electives (\<lambda>c. False) electives_planner zero_totals)) = 3
   \<and> cat_percent (fst (progress_cs_electives (\<lambda>c. False) electives_planner zero_totals)) = 100
   \<and> cat_completed (fst (progress_capstone capstone_systems_planner zero_totals))
       = [''CS 4624'', ''CS 4644'']
   \<and> totalCompleted (snd (progress_capstone capstone_systems_planner zero_totals)) = 1
   \<and> cat_percent (fst (progress_capstone capstone_systems_planner zero_totals)) = 100
   \<and> cat_completed (fst (progress_cs_systems capstone_systems_planner zero_totals))
       = [''CS 4104'', ''CS 4114'', ''CS 4254'']
   \<and> totalCompleted (snd (progress_cs_systems capstone_systems_planner zero_totals)) = 2
   \<and> cat_percent (fst (progress_cs_systems capstone_systems_planner zero_totals)) = 100"
proof -
  have a: "filter (\<lambda>c. c \<in> completedCodes electives_planner) stats_from
             = [''STAT 3006'', ''STAT 4705'']"
    by code_simp
  have b: "filter (\<lambda>c. c \<in> completedCodes electives_planner)
             (csElectives (\<lambda>c. False) electives_planner)
             = [''CS 4604'', ''CS 4804'', ''CS 3704'', ''CS 3724'', ''CS 3744'']"
    by code_simp
  have c: "filter (\<lambda>c. c \<in> completedCodes capstone_systems_planner) capstone_from
             = [''CS 4624'', ''CS 4644'']"
    by code_simp
  have d: "filter (\<lambda>c. c \<in> completedCodes capstone_systems_planner) systemsOptions
             = [''CS 4114'', ''CS 4254'']"
    by code_simp
  have e: "''CS 4104'' \<in> completedCodes capstone_systems_planner"
    by code_simp
  have z: "totalCompleted zero_totals = 0" by (simp add: zero_totals_def)
  note el = choose_n_capped[of electives_planner zero_totals "\<lambda>c. False"]
  note cs = choose_n_capped[of capstone_systems_planner zero_totals "\<lambda>c. False"]
  have stats: "cat_completed (fst (progress_stats electives_planner zero_totals))
                 = [''STAT 3006'', ''STAT 4705'']
      \<and> totalCompleted (snd (progress_stats electives_planner zero_totals)) = 1
      \<and> cat_percent (fst (progress_stats electives_planner zero_totals)) = 100"
    using el a z by simp
  have elec: "cat_completed (fst (progress_cs_electives (\<lambda>c. False) electives_planner zero_totals))
                 = [''CS 4604'', ''CS 4804'', ''CS 3704'', ''CS 3724'', ''CS 3744'']
      \<and> totalCompleted (snd (progress_cs_electives (\<lambda>c. False) electives_planner zero_totals)) = 3
      \<and> cat_percent (fst (progress_cs_electives (\<lambda>c. False) electives_planner zero_totals)) = 100"
    using el b z by simp
  have caps: "cat_completed (fst (progress_capstone capstone_systems_planner zero_totals))
                 = [''CS 4624'', ''CS 4644'']
      \<and> totalCompleted (snd (progress_capstone capstone_systems_planner zero_totals)) = 1
      \<and> cat_percent (fst (progress_capstone capstone_systems_planner zero_totals)) = 100"
    using cs c z by simp
  have syst: "cat_completed (fst (progress_cs_systems capstone_systems_planner zero_totals))
                 = [''CS 4104'', ''CS 4114'', ''CS 4254'']
      \<and> totalCompleted (snd (progress_cs_systems capstone_systems_planner zero_totals)) = 2
      \<and> cat_percent (fst (progress_cs_systems capstone_systems_planner zero_totals)) = 100"
    using cs d e z by simp
  from stats elec caps syst show ?thesis by blast
qed

section \<open>The scheduler and the loader leave the structured prerequisites out\<close>

lemma map_of_retree:
  "map_of (map (\<lambda>(c, i). (c, i\<lparr>prereqs_structured := t c\<rparr>)) al) k
     = map_option (\<lambda>i. i\<lparr>prereqs_structured := t k\<rparr>) (map_of al k)"
  by (induction al) auto

lemma getEarliestSemester_retree:
  "getEarliestSemester
     (st\<lparr>allCourses := map (\<lambda>(c, i). (c, i\<lparr>prereqs_structured := t c\<rparr>)) (allCourses st)\<rparr>)
     code pbs
   = getEarliestSemester st code pbs"
  by (cases "map_of (allCourses st) code")
    (simp_all add: getEarliestSemester_def map_of_retree prereqs_or_empty_def alreadyTaken_def
      Let_def)

lemma getEarliestSemester_no_flat:
  "map_of (allCourses st) code = Some info \<Longrightarrow> prereqs_or_empty info = [] \<Longrightarrow>
   getEarliestSemester st code pbs = 0"
  by (simp add: getEarliestSemester_def)

lemma in_set_update:
  "(k', v') \<in> set (AList.update k v al) \<Longrightarrow> (k', v') = (k, v) \<or> (k', v') \<in> set al"
  by (induction al) (auto split: if_splits)

lemma key_in_update: "k' \<in> fst ` set al \<Longrightarrow> k' \<in> fst ` set (AList.update k v al)"
  by (induction al) (auto split: if_splits)

lemma key_of_update: "k \<in> fst ` set (AList.update k v al)"
  by (induction al) auto

lemma coursesObj_values:
  "(k, v) \<in> set (fold (\<lambda>course obj. AList.update (api_code course) (convert_course course) obj)
                    courses obj)
   \<Longrightarrow> (\<exists>c \<in> set courses. v = convert_course c) \<or> (k, v) \<in> set obj"
proof (induction courses arbitrary: obj)
  case Nil
  then show ?case by simp
next
  case (Cons c cs)
  from Cons.prems
  have "(k, v) \<in> set (fold (\<lambda>course obj. AList.update (api_code course) (convert_course course) obj)
                         cs (AList.update (api_code c) (convert_course c) obj))"
    by simp
  from Cons.IH[OF this] show ?case
  proof
    assume "\<exists>c \<in> set cs. v = convert_course c"
    then show ?thesis by auto
  next
    assume "(k, v) \<in> set (AList.update (api_code c) (convert_course c) obj)"
    from in_set_update[OF this] show ?thesis by auto
  qed
qed

lemma coursesObj_keep_key:
  "k \<in> fst ` set obj \<Longrightarrow>
   k \<in> fst ` set (fold (\<lambda>course obj. AList.update (api_code course) (convert_course course) obj)
                     courses obj)"
  by (induction courses arbitrary: obj) (simp_all add: key_in_update)

lemma coursesObj_keys:
  "c \<in> set courses \<Longrightarrow>
   api_code c \<in> fst ` set (fold (\<lambda>course obj. AList.update (api_code course) (convert_course course) obj)
                              courses obj)"
proof (induction courses arbitrary: obj)
  case Nil
  then show ?case by simp
next
  case (Cons d ds)
  show ?case
  proof (cases "c = d")
    case True
    have "api_code d \<in> fst ` set (AList.update (api_code d) (convert_course d) obj)"
      by (rule key_of_update)
    from coursesObj_keep_key[OF this] True show ?thesis by simp
  next
    case False
    with Cons.prems have "c \<in> set ds" by simp
    from Cons.IH[OF this] show ?thesis by simp
  qed
qed

lemma map_of_spread:
  "map_of (fold (\<lambda>(code, info) obj. AList.update code info obj) xs al) k
     = (case map_of (rev xs) k of Some v \<Rightarrow> Some v | None \<Rightarrow> map_of al k)"
proof (induction xs arbitrary: al)
  case Nil
  then show ?case by simp
next
  case (Cons x xs)
  obtain k0 v0 where x: "x = (k0, v0)" by (cases x)
  show ?case
    by (simp add: x Cons.IH update_conv' map_add_def split: option.splits)
qed

lemma loadCourses_drops_tree:
  assumes "c \<in> set courses"
  shows "\<exists>info. map_of (allCourses (loadCourses st courses)) (api_code c) = Some info
                \<and> prereqs_structured info = Absent"
proof -
  let ?obj = "fold (\<lambda>course obj. AList.update (api_code course) (convert_course course) obj)
                courses []"
  from coursesObj_keys[OF assms] have key: "api_code c \<in> fst ` set ?obj" .
  then have ne: "length ?obj > 0" by auto
  from key have "api_code c \<in> fst ` set (rev ?obj)" by simp
  then obtain v where v: "map_of (rev ?obj) (api_code c) = Some v"
    by (cases "map_of (rev ?obj) (api_code c)") (auto simp add: map_of_eq_None_iff)
  then have "(api_code c, v) \<in> set ?obj" by (auto dest: map_of_SomeD)
  from coursesObj_values[OF this] obtain d where "v = convert_course d" by auto
  then have "prereqs_structured v = Absent" by (simp add: convert_course_def)
  moreover have "map_of (allCourses (loadCourses st courses)) (api_code c) = Some v"
    using ne v by (simp add: loadCourses_def Let_def map_of_spread)
  ultimately show ?thesis by blast
qed

text \<open>
  C10. \<open>getEarliestSemester\<close> reads only the flat list: a course of the catalog with an
  empty flat list has earliest semester 0, and replacing every structured tree of the
  catalog changes no earliest semester. The required course X of the example, whose
  only prerequisite is structured, is placed in slot 0 although \<open>prereqsMet\<close> is false
  for it there. Every course that \<open>loadCourses\<close> stores has no structured tree.
\<close>

theorem scheduler_ignores_structured_prereqs:
  "(map_of (allCourses st) code = Some info \<and> prereqs_or_empty info = []
      \<longrightarrow> getEarliestSemester st code pbs = 0)
   \<and> getEarliestSemester
       (st\<lparr>allCourses := map (\<lambda>(c, i). (c, i\<lparr>prereqs_structured := t c\<rparr>)) (allCourses st)\<rparr>)
       code pbs
     = getEarliestSemester st code pbs
   \<and> ''X'' \<in> set (scheduled_slot structured_only_planner 0)
   \<and> \<not> prereqsMet (generateLocalSchedule structured_only_planner) ''X'' ''fall1''
   \<and> (c \<in> set courses \<longrightarrow>
        (\<exists>info. map_of (allCourses (loadCourses st courses)) (api_code c) = Some info
                \<and> prereqs_structured info = Absent))"
proof -
  have a: "map_of (allCourses st) code = Some info \<and> prereqs_or_empty info = []
      \<longrightarrow> getEarliestSemester st code pbs = 0"
    using getEarliestSemester_no_flat by blast
  have x: "''X'' \<in> set (scheduled_slot structured_only_planner 0)" by code_simp
  have p: "\<not> prereqsMet (generateLocalSchedule structured_only_planner) ''X'' ''fall1''"
    by code_simp
  from a getEarliestSemester_retree[where st = st and t = t and code = code and pbs = pbs] x p
    loadCourses_drops_tree[where c = c and courses = courses and st = st]
  show ?thesis by blast
qed

theorem scheduler_ignores_structured_prereqs_witness:
  "map_of (allCourses structured_only_planner) ''X''
     = Some (plain_course\<lparr>prereqs_structured := COURSE ''A''\<rparr>)
   \<and> prereqs_or_empty (plain_course\<lparr>prereqs_structured := COURSE ''A''\<rparr>) = []
   \<and> getEarliestSemester structured_only_planner ''X'' (map (\<lambda>_. []) SEMESTERS) = 0
   \<and> api_X \<in> set [api_X]
   \<and> api_prereqs_structured api_X = COURSE ''A''
   \<and> map_of (allCourses (loadCourses structured_only_planner [api_X])) ''X''
       = Some (convert_course api_X)
   \<and> prereqs_structured (convert_course api_X) = Absent"
proof -
  let ?info = "plain_course\<lparr>prereqs_structured := COURSE ''A''\<rparr>"
  have m: "map_of (allCourses structured_only_planner) ''X'' = Some ?info"
    by (simp add: structured_only_planner_def empty_planner_def)
  have e: "prereqs_or_empty ?info = []" by (simp add: prereqs_or_empty_def plain_course_def)
  have i: "api_X \<in> set [api_X]" by simp
  have t: "api_prereqs_structured api_X = COURSE ''A''" by (simp add: api_X_def)
  have c: "api_code api_X = ''X''" by (simp add: api_X_def)
  have l: "map_of (allCourses (loadCourses structured_only_planner [api_X])) ''X''
             = Some (convert_course api_X)"
    by (simp add: loadCourses_def structured_only_planner_def empty_planner_def c)
  from scheduler_ignores_structured_prereqs
         [where st = structured_only_planner and code = "''X''" and info = ?info
            and pbs = "map (\<lambda>_. []) SEMESTERS" and t = "\<lambda>_. Absent" and c = api_X
            and courses = "[api_X]"]
       m e i t l
  show ?thesis by (simp add: c)
qed

end
